theory Spec2Isabelle
  imports Complex_Main "HOL-Library.Word" "HOL-Library.Monad_Syntax"
begin

unbundle bit_operations_syntax

section \<open>Machine types of TextLayoutCache.cpp\<close>

text \<open>
  The code is the 32-bit build of core/jni/android/graphics/TextLayoutCache.cpp:
  \<open>size_t\<close>, \<open>int\<close>, \<open>jint\<close> and pointers are 32-bit words, \<open>UChar\<close> and \<open>jchar\<close>
  are 16-bit code units. \<open>jfloat\<close> and \<open>SkScalar\<close> are modelled as exact reals: rounding
  and NaN are outside the model.
\<close>

type_synonym UChar = "16 word"
type_synonym jchar = "16 word"
type_synonym jfloat = real
type_synonym SkScalar = real
type_synonym size_t = "32 word"
type_synonym HB_Fixed = "32 word"
type_synonym HB_Glyph = "32 word"
type_synonym HB_GlyphAttributes = "32 word"
type_synonym SkTypeface_ptr = "32 word"
type_synonym HB_Face = "32 word"
type_synonym SkFontID = "32 word"
type_synonym SkLanguage = nat

text \<open>
  An array read \<open>a[i]\<close>. Inside the array it is the element; past its end the C code reads
  whatever follows in memory, which the model fixes as 0 (the terminator of a String16
  buffer). No valid request reads past the end.
\<close>

definition elem_at :: "'a::zero list \<Rightarrow> nat \<Rightarrow> 'a" where
  "elem_at xs i = (if i < length xs then xs ! i else 0)"

definition point_at :: "(HB_Fixed \<times> HB_Fixed) list \<Rightarrow> nat \<Rightarrow> HB_Fixed \<times> HB_Fixed" where
  "point_at xs i = (if i < length xs then xs ! i else (0, 0))"

section \<open>SkPaint, as far as the layout code reads it\<close>

record SkPaint =
  getTypeface :: SkTypeface_ptr
  getTextSize :: SkScalar
  getTextSkewX :: SkScalar
  getTextScaleX :: SkScalar
  getFlags :: "32 word"
  getHinting :: "32 word"
  getFontVariant :: "32 word"
  getLanguage :: SkLanguage

section \<open>TextLayoutCacheKey\<close>

record TextLayoutCacheKey =
  textCopy :: "UChar list"
  start :: size_t
  count :: size_t
  contextCount :: size_t
  dirFlags :: "32 word"
  typeface :: SkTypeface_ptr
  textSize :: SkScalar
  textSkewX :: SkScalar
  textScaleX :: SkScalar
  flags :: "32 word"
  hinting :: "32 word"
  variant :: "32 word"
  language :: SkLanguage

text \<open>
  \<open>TextLayoutCacheKey(paint, text, start, count, contextCount, dirFlags)\<close>:
  \<open>textCopy.setTo(text, contextCount)\<close> copies the first \<open>contextCount\<close> code units of
  the caller's buffer.
\<close>

definition TextLayoutCacheKey_new ::
  "SkPaint \<Rightarrow> UChar list \<Rightarrow> size_t \<Rightarrow> size_t \<Rightarrow> size_t \<Rightarrow> 32 word \<Rightarrow> TextLayoutCacheKey" where
  "TextLayoutCacheKey_new paint chars st cnt ctx dir =
     \<lparr> textCopy = take (unat ctx) chars,
       start = st, count = cnt, contextCount = ctx, dirFlags = dir,
       typeface = getTypeface paint,
       textSize = getTextSize paint,
       textSkewX = getTextSkewX paint,
       textScaleX = getTextScaleX paint,
       flags = getFlags paint,
       hinting = getHinting paint,
       variant = getFontVariant paint,
       language = getLanguage paint \<rparr>"

definition getText :: "TextLayoutCacheKey \<Rightarrow> UChar list" where
  "getText k = textCopy k"

text \<open>The two bytes of a code unit in memory, low byte first (little-endian).\<close>

definition UChar_bytes :: "UChar \<Rightarrow> 8 word list" where
  "UChar_bytes u = [ucast u, ucast (drop_bit 8 u)]"

definition bytes_of :: "UChar list \<Rightarrow> 8 word list" where
  "bytes_of us = concat (map UChar_bytes us)"

text \<open>
  \<open>memcmp(a, b, n)\<close>: the first differing byte decides the sign. Only the sign of the C
  result is specified; the model returns -1, 0 or 1. A buffer shorter than \<open>n\<close> bytes is
  read past its end in C; the model stops there with 0, and well-formed keys never get
  there.
\<close>

fun memcmp :: "8 word list \<Rightarrow> 8 word list \<Rightarrow> nat \<Rightarrow> int" where
  "memcmp (a # as) (b # bs) (Suc n) =
     (if a < b then - 1 else if b < a then 1 else memcmp as bs n)"
| "memcmp as bs n = 0"

text \<open>
  \<open>TextLayoutCacheKey::compare\<close>. \<open>deltaInt\<close> is an \<open>int\<close>: the 32-bit difference read as
  two's complement. \<open>sizeof(UChar)\<close> is 2, and the byte count is a \<open>size_t\<close> product.
\<close>

definition compare :: "TextLayoutCacheKey \<Rightarrow> TextLayoutCacheKey \<Rightarrow> int" where
  "compare lhs rhs =
    (if sint (start lhs - start rhs) \<noteq> 0 then sint (start lhs - start rhs)
     else if sint (count lhs - count rhs) \<noteq> 0 then sint (count lhs - count rhs)
     else if sint (contextCount lhs - contextCount rhs) \<noteq> 0
       then sint (contextCount lhs - contextCount rhs)
     else if typeface lhs < typeface rhs then - 1
     else if typeface lhs > typeface rhs then 1
     else if textSize lhs < textSize rhs then - 1
     else if textSize lhs > textSize rhs then 1
     else if textSkewX lhs < textSkewX rhs then - 1
     else if textSkewX lhs > textSkewX rhs then 1
     else if textScaleX lhs < textScaleX rhs then - 1
     else if textScaleX lhs > textScaleX rhs then 1
     else if sint (flags lhs - flags rhs) \<noteq> 0 then sint (flags lhs - flags rhs)
     else if sint (hinting lhs - hinting rhs) \<noteq> 0 then sint (hinting lhs - hinting rhs)
     else if sint (dirFlags lhs - dirFlags rhs) \<noteq> 0 then sint (dirFlags lhs - dirFlags rhs)
     else if sint (variant lhs - variant rhs) \<noteq> 0 then sint (variant lhs - variant rhs)
     else if language lhs < language rhs then - 1
     else if language lhs > language rhs then 1
     else memcmp (bytes_of (getText lhs)) (bytes_of (getText rhs))
            (unat (contextCount lhs * 2)))"


section \<open>Vector and TextLayoutValue\<close>

text \<open>
  \<open>android::Vector\<close> (libutils, not among the sources here) is an array with a logical
  size and an allocated capacity. Its items are modelled exactly; how the allocated
  capacity changes is the library's business and is taken as a parameter
  (\<open>Vector_capacity_policy\<close> below): the operation, the capacity before and the size
  before give the capacity after.
\<close>

record 'a Vector =
  items :: "'a list"
  capacity :: nat

datatype Vector_op = Op_setCapacity nat | Op_add | Op_clear

definition Vector_empty :: "'a Vector" where
  "Vector_empty = \<lparr> items = [], capacity = 0 \<rparr>"

definition Vector_setCapacity :: "(Vector_op \<Rightarrow> nat \<Rightarrow> nat \<Rightarrow> nat) \<Rightarrow> nat \<Rightarrow> 'a Vector \<Rightarrow> 'a Vector" where
  "Vector_setCapacity pol n v = v \<lparr> capacity := pol (Op_setCapacity n) (capacity v) (length (items v)) \<rparr>"

definition Vector_add :: "(Vector_op \<Rightarrow> nat \<Rightarrow> nat \<Rightarrow> nat) \<Rightarrow> 'a \<Rightarrow> 'a Vector \<Rightarrow> 'a Vector" where
  "Vector_add pol x v =
     \<lparr> items = items v @ [x], capacity = pol Op_add (capacity v) (length (items v)) \<rparr>"

definition Vector_clear :: "(Vector_op \<Rightarrow> nat \<Rightarrow> nat \<Rightarrow> nat) \<Rightarrow> 'a Vector \<Rightarrow> 'a Vector" where
  "Vector_clear pol v = \<lparr> items = [], capacity = pol Op_clear (capacity v) (length (items v)) \<rparr>"

text \<open>
  \<open>replaceAt(item, index)\<close> overwrites one item; with \<open>index >= size()\<close> the library
  returns BAD\_INDEX and changes nothing, which is what list update does.
\<close>

definition Vector_replaceAt :: "'a \<Rightarrow> nat \<Rightarrow> 'a Vector \<Rightarrow> 'a Vector" where
  "Vector_replaceAt x i v = v \<lparr> items := (items v)[i := x] \<rparr>"

text \<open>
  \<open>TextLayoutValue\<close>. \<open>mObject\<close> is the identity of the heap object that \<open>new\<close>
  returned (what an \<open>sp<TextLayoutValue>\<close> points to); the other fields are the
  members. The debug instrumentation is off (\<open>mDebugEnabled\<close> false: no log lines, no
  clock reads), so \<open>mElapsedTime\<close> keeps its initial 0.
\<close>

record TextLayoutValue =
  mObject :: nat
  mAdvances :: "jfloat Vector"
  mTotalAdvance :: jfloat
  mGlyphs :: "jchar Vector"
  mPos :: "jfloat Vector"
  mElapsedTime :: "32 word"

section \<open>External collaborators\<close>

datatype UBiDiDirection = UBIDI_LTR | UBIDI_RTL | UBIDI_MIXED

text \<open>
  What ICU's bidi object answers after a successful \<open>ubidi_setPara\<close>:
  \<open>ubidi_getParaLevel\<close>, the status and result of \<open>ubidi_countRuns\<close>, and for
  \<open>ubidi_getVisualRun(bidi, i, &startRun, &lengthRun)\<close> the direction returned together
  with the values of \<open>startRun\<close> and \<open>lengthRun\<close> after the call (both were -1 before it).
\<close>

record UBiDi =
  ubidi_getParaLevel :: "8 word"
  ubidi_countRuns_success :: bool
  ubidi_countRuns :: int
  ubidi_getVisualRun :: "nat \<Rightarrow> UBiDiDirection \<times> int \<times> int"

datatype HB_Script = HB_Script_Common | HB_Script_Greek | HB_Script_Cyrillic
  | HB_Script_Hangul | HB_Script_Inherited | HB_Script_Other nat

record HB_ScriptItem =
  item_pos :: "32 word"
  item_length :: "32 word"
  item_script :: HB_Script
  item_bidiLevel :: "8 word"

record HB_FontRec =
  x_ppem :: "16 word"
  y_ppem :: "16 word"
  x_scale :: "32 word"
  y_scale :: "32 word"

text \<open>
  What \<open>HB_ShapeItem\<close> reads of the shaper item: the string, the script item, the face,
  the font record with the shaping paint behind its \<open>userData\<close>, and in \<open>num_glyphs\<close>
  the capacity of the five output arrays.
\<close>

record HB_ShapeRequest =
  req_string :: "UChar list"
  req_stringLength :: "32 word"
  req_item :: HB_ScriptItem
  req_face :: HB_Face
  req_font :: HB_FontRec
  req_paint :: SkPaint
  req_num_glyphs :: "32 word"

text \<open>
  What \<open>HB_ShapeItem\<close> leaves behind: its return value, \<open>num_glyphs\<close>, the contents of
  \<open>glyphs\<close>, \<open>advances\<close>, \<open>offsets\<close> and \<open>log_clusters\<close> (\<open>attributes\<close> is never read by
  this file) and \<open>kerning_applied\<close>.
\<close>

record HB_ShapeResult =
  res_ok :: bool
  res_num_glyphs :: "32 word"
  res_glyphs :: "HB_Glyph list"
  res_advances :: "HB_Fixed list"
  res_offsets :: "(HB_Fixed \<times> HB_Fixed) list"
  res_log_clusters :: "16 word list"
  res_kerning_applied :: bool

text \<open>
  Everything the file calls but does not define: ICU (bidi, normalizer, character
  properties), the Harfbuzz script-run iterators and shaper, Skia's font host, the paint's
  glyph query, \<open>HBFixedToFloat\<close> of HarfbuzzSkia.h, the Vector capacity policy and the
  two \<open>sizeof\<close> constants. A script-run iterator gets the string, its length and the
  cursor, and answers \<open>None\<close> for false or the item and the new cursor for true.
  \<open>Normalizer_normalize\<close> gets the source and the incoming error code and answers the
  result buffer and the outgoing error code.
\<close>

record env =
  ubidi_open :: bool
  ubidi_setPara :: "UChar list \<Rightarrow> nat \<Rightarrow> 8 word \<Rightarrow> UBiDi option"
  ublock_getCode :: "UChar \<Rightarrow> nat"
  Normalizer_normalize :: "UChar list \<Rightarrow> int \<Rightarrow> UChar list \<times> int"
  u_isMirrored :: "32 word \<Rightarrow> bool"
  u_charMirror :: "32 word \<Rightarrow> 32 word"
  hb_utf16_script_run_next :: "UChar list \<Rightarrow> nat \<Rightarrow> int \<Rightarrow> (HB_ScriptItem \<times> int) option"
  hb_utf16_script_run_prev :: "UChar list \<Rightarrow> nat \<Rightarrow> int \<Rightarrow> (HB_ScriptItem \<times> int) option"
  HB_ShapeItem :: "HB_ShapeRequest \<Rightarrow> HB_ShapeResult"
  HB_NewFace :: "SkTypeface_ptr \<Rightarrow> HB_Face"
  HBFixedToFloat :: "HB_Fixed \<Rightarrow> jfloat"
  SkFontHost_CreateTypeface :: SkTypeface_ptr
  SkCreateTypefaceForScript :: "HB_Script \<Rightarrow> nat \<Rightarrow> SkTypeface_ptr"
  SkTypeface_style :: "SkTypeface_ptr \<Rightarrow> nat"
  SkTypeface_uniqueID :: "SkTypeface_ptr \<Rightarrow> SkFontID"
  SkFontHost_GetUnitsPerEm :: "SkFontID \<Rightarrow> 32 word"
  getBaseGlyphCount :: "SkPaint \<Rightarrow> 32 word \<Rightarrow> size_t"
  Vector_capacity_policy :: "Vector_op \<Rightarrow> nat \<Rightarrow> nat \<Rightarrow> nat"
  sizeof_TextLayoutCacheKey :: size_t
  sizeof_TextLayoutValue :: size_t

text \<open>Constants of the headers (TextLayout.h, ICU's ubidi.h, uchar.h, SkTypeface.h).\<close>

definition kBidi_LTR :: "32 word" where "kBidi_LTR = 0"
definition kBidi_RTL :: "32 word" where "kBidi_RTL = 1"
definition kBidi_Default_LTR :: "32 word" where "kBidi_Default_LTR = 2"
definition kBidi_Default_RTL :: "32 word" where "kBidi_Default_RTL = 3"
definition kBidi_Force_LTR :: "32 word" where "kBidi_Force_LTR = 4"
definition kBidi_Force_RTL :: "32 word" where "kBidi_Force_RTL = 5"
definition kDirection_Mask :: "8 word" where "kDirection_Mask = 1"
definition UBIDI_DEFAULT_LTR :: "8 word" where "UBIDI_DEFAULT_LTR = 0xfe"
definition UBIDI_DEFAULT_RTL :: "8 word" where "UBIDI_DEFAULT_RTL = 0xff"
definition UBLOCK_COMBINING_DIACRITICAL_MARKS :: nat where
  "UBLOCK_COMBINING_DIACRITICAL_MARKS = 7"
definition UNICODE_ZWSP :: UChar where "UNICODE_ZWSP = 0x200b"
definition U_ZERO_ERROR :: int where "U_ZERO_ERROR = 0"
definition U_SUCCESS :: "int \<Rightarrow> bool" where "U_SUCCESS x = (x \<le> U_ZERO_ERROR)"
definition SkTypeface_kNormal :: nat where "SkTypeface_kNormal = 0"

text \<open>
  \<open>TextLayoutValue(contextCount)\<close>: the three vectors get a capacity hint and stay
  empty. \<open>obj\<close> is the address of the new object.
\<close>

definition TextLayoutValue_new :: "env \<Rightarrow> nat \<Rightarrow> size_t \<Rightarrow> TextLayoutValue" where
  "TextLayoutValue_new e obj ctx =
     \<lparr> mObject = obj,
       mAdvances = Vector_setCapacity (Vector_capacity_policy e) (unat ctx) Vector_empty,
       mTotalAdvance = 0,
       mGlyphs = Vector_setCapacity (Vector_capacity_policy e) (unat ctx) Vector_empty,
       mPos = Vector_setCapacity (Vector_capacity_policy e) (unat (ctx * 2)) Vector_empty,
       mElapsedTime = 0 \<rparr>"

text \<open>
  \<open>TextLayoutCacheKey::getSize\<close> and \<open>TextLayoutValue::getSize\<close>, in \<open>size_t\<close>
  arithmetic; \<open>sizeof(UChar)\<close> and \<open>sizeof(jchar)\<close> are 2, \<open>sizeof(jfloat)\<close> is 4.
\<close>

definition key_getSize :: "env \<Rightarrow> TextLayoutCacheKey \<Rightarrow> size_t" where
  "key_getSize e k = sizeof_TextLayoutCacheKey e + 2 * contextCount k"

definition value_getSize :: "env \<Rightarrow> TextLayoutValue \<Rightarrow> size_t" where
  "value_getSize e v =
     sizeof_TextLayoutValue e + 4 * of_nat (capacity (mAdvances v))
       + 2 * of_nat (capacity (mGlyphs v)) + 4 * of_nat (capacity (mPos v))"

section \<open>TextLayoutShaper\<close>

text \<open>
  The members of \<open>mShaperItem\<close> that the file touches. \<open>arrays_null\<close> says that the five
  array pointers are still the NULL of the constructor's \<open>memset\<close>. The file allocates
  and frees \<open>attributes\<close> and never reads it, so the shaper's writes to it are left out.
\<close>

record HB_ShaperItem =
  shaper_string :: "UChar list"
  stringLength :: "32 word"
  item :: HB_ScriptItem
  face :: HB_Face
  num_glyphs :: "32 word"
  glyphs :: "HB_Glyph list"
  attributes :: "HB_GlyphAttributes list"
  advances :: "HB_Fixed list"
  offsets :: "(HB_Fixed \<times> HB_Fixed) list"
  log_clusters :: "16 word list"
  arrays_null :: bool
  kerning_applied :: bool

record TextLayoutShaper =
  mShaperItem :: HB_ShaperItem
  mFontRec :: HB_FontRec
  mShapingPaint :: SkPaint
  mShaperItemGlyphArraySize :: size_t
  mDefaultTypeface :: SkTypeface_ptr
  mCachedHBFaces :: "SkFontID \<rightharpoonup> HB_Face"
  mNormalizedString :: "UChar list"
  mBuffer :: "UChar list"

definition TextLayoutShaper_init :: "env \<Rightarrow> TextLayoutShaper \<Rightarrow> TextLayoutShaper" where
  "TextLayoutShaper_init e sh = sh \<lparr> mDefaultTypeface := SkFontHost_CreateTypeface e \<rparr>"

definition TextLayoutShaper_new :: "env \<Rightarrow> TextLayoutShaper" where
  "TextLayoutShaper_new e = TextLayoutShaper_init e
     \<lparr> mShaperItem =
         \<lparr> shaper_string = [], stringLength = 0,
           item = \<lparr> item_pos = 0, item_length = 0, item_script = HB_Script_Common,
                    item_bidiLevel = 0 \<rparr>,
           face = 0, num_glyphs = 0, glyphs = [], attributes = [], advances = [], offsets = [],
           log_clusters = [], arrays_null = True, kerning_applied = False \<rparr>,
       mFontRec = \<lparr> x_ppem = 0, y_ppem = 0, x_scale = 0, y_scale = 0 \<rparr>,
       mShapingPaint = \<lparr> getTypeface = 0, getTextSize = 0, getTextSkewX = 0,
           getTextScaleX = 0, getFlags = 0, getHinting = 0, getFontVariant = 0,
           getLanguage = 0 \<rparr>,
       mShaperItemGlyphArraySize = 0,
       mDefaultTypeface = 0,
       mCachedHBFaces = Map.empty,
       mNormalizedString = [],
       mBuffer = [] \<rparr>"

text \<open>
  \<open>createShaperItemGlyphArrays(size)\<close>: five fresh arrays of \<open>size\<close> elements. The
  contents of fresh memory are not determined; they are written as zeros here, and every
  read of them comes after \<open>HB_ShapeItem\<close> has filled them.
\<close>

definition createShaperItemGlyphArrays :: "size_t \<Rightarrow> TextLayoutShaper \<Rightarrow> TextLayoutShaper" where
  "createShaperItemGlyphArrays sz sh =
     sh \<lparr> mShaperItemGlyphArraySize := sz,
          mShaperItem := (mShaperItem sh)
            \<lparr> glyphs := replicate (unat sz) 0,
              attributes := replicate (unat sz) 0,
              advances := replicate (unat sz) 0,
              offsets := replicate (unat sz) (0, 0),
              log_clusters := replicate (unat sz) 0,
              arrays_null := False \<rparr> \<rparr>"

text \<open>\<open>delete[]\<close> frees the arrays and leaves the pointers as they are.\<close>

definition deleteShaperItemGlyphArrays :: "TextLayoutShaper \<Rightarrow> TextLayoutShaper" where
  "deleteShaperItemGlyphArrays sh =
     sh \<lparr> mShaperItem := (mShaperItem sh)
            \<lparr> glyphs := [], attributes := [], advances := [], offsets := [],
              log_clusters := [] \<rparr> \<rparr>"

definition shapeRequest :: "TextLayoutShaper \<Rightarrow> HB_ShapeRequest" where
  "shapeRequest sh =
     \<lparr> req_string = shaper_string (mShaperItem sh),
       req_stringLength = stringLength (mShaperItem sh),
       req_item = item (mShaperItem sh),
       req_face = face (mShaperItem sh),
       req_font = mFontRec sh,
       req_paint = mShapingPaint sh,
       req_num_glyphs = num_glyphs (mShaperItem sh) \<rparr>"

text \<open>
  \<open>doShaping(size)\<close>, up to the call of the shaper: the arrays are replaced only when
  \<open>size\<close> exceeds their current size; the capacity offered to the shaper in
  \<open>num_glyphs\<close> is the current array size; the offsets are zeroed.
\<close>

definition prepareShaping :: "size_t \<Rightarrow> TextLayoutShaper \<Rightarrow> TextLayoutShaper" where
  "prepareShaping sz sh =
     (let sh1 = (if sz > mShaperItemGlyphArraySize sh
                 then createShaperItemGlyphArrays sz (deleteShaperItemGlyphArrays sh)
                 else sh);
          sh2 = sh1 \<lparr> mShaperItem := (mShaperItem sh1)
                  \<lparr> num_glyphs := mShaperItemGlyphArraySize sh1 \<rparr> \<rparr>
      in sh2 \<lparr> mShaperItem := (mShaperItem sh2)
               \<lparr> offsets := replicate (unat (num_glyphs (mShaperItem sh2))) (0, 0) \<rparr> \<rparr>)"

text \<open>
  \<open>doShaping(size)\<close>: after the preparation, \<open>HB_ShapeItem(&mShaperItem)\<close> fills the
  arrays, \<open>num_glyphs\<close> and \<open>kerning_applied\<close>, and its return value is the result.
\<close>

definition doShaping :: "env \<Rightarrow> size_t \<Rightarrow> TextLayoutShaper \<Rightarrow> bool \<times> TextLayoutShaper" where
  "doShaping e sz sh =
     (let sh3 = prepareShaping sz sh;
          r = HB_ShapeItem e (shapeRequest sh3)
      in (res_ok r,
          sh3 \<lparr> mShaperItem := (mShaperItem sh3)
                \<lparr> num_glyphs := res_num_glyphs r,
                  glyphs := res_glyphs r,
                  advances := res_advances r,
                  offsets := res_offsets r,
                  log_clusters := res_log_clusters r,
                  kerning_applied := res_kerning_applied r \<rparr> \<rparr>))"

text \<open>
  The retry loop of \<open>shapeFontRun\<close>:
  \<open>while (!doShaping(size)) size = mShaperItem.num_glyphs * 2;\<close>
  It runs as long as the shaper says false, so it is a partial function: \<open>None\<close> is the
  loop that never ends.
\<close>

partial_function (option) shapingLoop :: "env \<Rightarrow> size_t \<Rightarrow> TextLayoutShaper \<Rightarrow> TextLayoutShaper option" where
  "shapingLoop e sz sh =
     (case doShaping e sz sh of
        (ok, sh') \<Rightarrow> if ok then Some sh' else shapingLoop e (num_glyphs (mShaperItem sh') * 2) sh')"

definition isComplexScript :: "HB_Script \<Rightarrow> bool" where
  "isComplexScript script =
     (case script of
        HB_Script_Common \<Rightarrow> False
      | HB_Script_Greek \<Rightarrow> False
      | HB_Script_Cyrillic \<Rightarrow> False
      | HB_Script_Hangul \<Rightarrow> False
      | HB_Script_Inherited \<Rightarrow> False
      | HB_Script_Other n \<Rightarrow> True)"

text \<open>
  Skia's \<open>SkUTF16_NextUnichar(&src)\<close>: one code point from one code unit, or from two
  when the first is a high surrogate; the pointer moves past what was read. The pointer
  is a position in the string.
\<close>

definition SkUTF16_NextUnichar :: "UChar list \<Rightarrow> nat \<Rightarrow> 32 word \<times> nat" where
  "SkUTF16_NextUnichar s p =
     (let c = (ucast (elem_at s p) :: 32 word) in
      if c AND 0xFC00 = 0xD800
      then (push_bit 10 c + ucast (elem_at s (p + 1)) + (0x10000 - push_bit 10 0xD800 - 0xDC00), p + 2)
      else (c, p + 1))"

text \<open>
  \<open>while (firstUnichar == ' ' && text16 < text16End) firstUnichar = SkUTF16_NextUnichar(&text16);\<close>
\<close>

function skipSpaces :: "UChar list \<Rightarrow> nat \<Rightarrow> nat \<Rightarrow> 32 word \<Rightarrow> 32 word" where
  "skipSpaces s text16End text16 firstUnichar =
     (if firstUnichar = 0x20 \<and> text16 < text16End
      then skipSpaces s text16End (snd (SkUTF16_NextUnichar s text16)) (fst (SkUTF16_NextUnichar s text16))
      else firstUnichar)"
  by pat_completeness auto
termination
  by (relation "measure (\<lambda>(s, text16End, text16, c). text16End - text16)")
     (auto simp add: SkUTF16_NextUnichar_def Let_def)

declare skipSpaces.simps [simp del]

definition typefaceForScript :: "env \<Rightarrow> SkTypeface_ptr \<Rightarrow> HB_Script \<Rightarrow> SkTypeface_ptr" where
  "typefaceForScript e tf script =
     (let currentStyle = (if tf \<noteq> 0 then SkTypeface_style e tf else SkTypeface_kNormal)
      in SkCreateTypefaceForScript e script currentStyle)"

text \<open>
  \<open>getCachedHBFace\<close>: the cached face of the font id, or a new face, which is cached
  when it is not NULL.
\<close>

definition getCachedHBFace :: "env \<Rightarrow> SkTypeface_ptr \<Rightarrow> TextLayoutShaper \<Rightarrow> HB_Face \<times> TextLayoutShaper" where
  "getCachedHBFace e tf sh =
     (let fontId = SkTypeface_uniqueID e tf in
      case mCachedHBFaces sh fontId of
        Some f \<Rightarrow> (f, sh)
      | None \<Rightarrow>
          (let f = HB_NewFace e tf in
           if f \<noteq> 0 then (f, sh \<lparr> mCachedHBFaces := (mCachedHBFaces sh)(fontId \<mapsto> f) \<rparr>)
           else (f, sh)))"

text \<open>A C conversion from a floating value to an integer: towards zero.\<close>

definition float_to_int :: "real \<Rightarrow> int" where
  "float_to_int x = (if 0 \<le> x then \<lfloor>x\<rfloor> else \<lceil>x\<rceil>)"

text \<open>
  \<open>shapeFontRun(paint, isRTL)\<close> up to its retry loop: it picks the typeface (the
  paint's, a fallback for a complex script the paint does not cover, or the default one),
  the face and the font metrics. The result is the base glyph count and the shaper ready
  for shaping. Reference counting is not modelled. With \<open>unitsPerEm = 0\<close> the C division
  yields infinity where HOL yields 0; the value only travels to the shaper.
\<close>

definition shapeFontRun_setup :: "env \<Rightarrow> SkPaint \<Rightarrow> bool \<Rightarrow> TextLayoutShaper \<Rightarrow> size_t \<times> TextLayoutShaper" where
  "shapeFontRun_setup e paint isRTL sh0 =
     (let it0 = mShaperItem sh0;
          it1 = it0 \<lparr> kerning_applied := False,
                      item := (item it0) \<lparr> item_bidiLevel := (if isRTL then 1 else 0) \<rparr> \<rparr>;
          sh1 = sh0 \<lparr> mShaperItem := it1 \<rparr>;
          tf0 = getTypeface paint;
          baseGlyphCount =
            (if isComplexScript (item_script (item it1))
             then (let text16 = unat (item_pos (item it1));
                       text16End = text16 + unat (item_length (item it1));
                       first = SkUTF16_NextUnichar (shaper_string it1) text16;
                       firstUnichar = skipSpaces (shaper_string it1) text16End (snd first) (fst first)
                   in getBaseGlyphCount e paint firstUnichar)
             else 0);
          tf = (if baseGlyphCount \<noteq> 0
                then (let t = typefaceForScript e tf0 (item_script (item it1))
                      in if t = 0 then mDefaultTypeface sh1 else t)
                else (if tf0 = 0 then mDefaultTypeface sh1 else tf0));
          sh2 = sh1 \<lparr> mShapingPaint := (mShapingPaint sh1) \<lparr> getTypeface := tf \<rparr> \<rparr>;
          fc = getCachedHBFace e tf sh2;
          sh4 = (snd fc) \<lparr> mShaperItem := (mShaperItem (snd fc)) \<lparr> face := fst fc \<rparr> \<rparr>;
          textSize = float_to_int (getTextSize paint);
          scaleX = getTextScaleX paint;
          unitsPerEm = SkFontHost_GetUnitsPerEm e (SkTypeface_uniqueID e tf);
          emScale = (64 * 65536) / real (unat unitsPerEm)
      in (baseGlyphCount,
          sh4 \<lparr> mFontRec :=
                  \<lparr> x_ppem = word_of_int \<lfloor>scaleX * real_of_int textSize + 1 / 2\<rfloor>,
                    y_ppem = word_of_int textSize,
                    x_scale = word_of_int (float_to_int (emScale * scaleX * real_of_int textSize)),
                    y_scale = word_of_int (float_to_int (emScale * real_of_int textSize)) \<rparr> \<rparr>))"

text \<open>The size of the first shaping attempt: \<open>size_t size = mShaperItem.item.length * 3 / 2;\<close>\<close>

definition firstShapingSize :: "HB_ShaperItem \<Rightarrow> size_t" where
  "firstShapingSize it = (item_length (item it) * 3) div 2"

text \<open>
  \<open>shapeFontRun(paint, isRTL)\<close>: after the setup it shapes with the retry loop, starting
  at the size above, and returns the base glyph count.
\<close>

definition shapeFontRun :: "env \<Rightarrow> SkPaint \<Rightarrow> bool \<Rightarrow> TextLayoutShaper \<Rightarrow> (size_t \<times> TextLayoutShaper) option" where
  "shapeFontRun e paint isRTL sh0 =
     (let s = shapeFontRun_setup e paint isRTL sh0
      in map_option (\<lambda>sh6. (fst s, sh6))
           (shapingLoop e (firstShapingSize (mShaperItem (snd s))) (snd s)))"

text \<open>
  \<open>TextLayoutShaper::purgeCaches\<close>: the faces are freed and forgotten and the default
  typeface is created again. The glyph arrays and their size are not touched.
\<close>

definition TextLayoutShaper_purgeCaches :: "env \<Rightarrow> TextLayoutShaper \<Rightarrow> TextLayoutShaper" where
  "TextLayoutShaper_purgeCaches e sh =
     TextLayoutShaper_init e (sh \<lparr> mCachedHBFaces := Map.empty \<rparr>)"

section \<open>computeRunValues\<close>

text \<open>\<open>ssize\_t(n)\<close> of a \<open>size_t\<close> value, and the string of \<open>n\<close> units at a pointer.\<close>

definition ssize_t_of :: "size_t \<Rightarrow> int" where
  "ssize_t_of n = sint n"

definition chars_slice :: "UChar list \<Rightarrow> nat \<Rightarrow> nat \<Rightarrow> UChar list" where
  "chars_slice chars from n = map (elem_at chars) [from..<from + n]"

text \<open>
  ICU's \<open>UnicodeString::setCharAt(offset, c)\<close> pins the offset into the string and writes
  there; on an empty string it writes nothing.
\<close>

definition setCharAt :: "int \<Rightarrow> UChar \<Rightarrow> UChar list \<Rightarrow> UChar list" where
  "setCharAt offset c s =
     (let len = int (length s) in
      if 0 < len
      then s[nat (if offset < 0 then 0 else if len \<le> offset then len - 1 else offset) := c]
      else s)"

text \<open>\<open>for (size_t i = 0; i < count; i++) outAdvances->add(0);\<close>\<close>

primrec add_zeros :: "(Vector_op \<Rightarrow> nat \<Rightarrow> nat \<Rightarrow> nat) \<Rightarrow> nat \<Rightarrow> jfloat Vector \<Rightarrow> jfloat Vector" where
  "add_zeros pol 0 v = v"
| "add_zeros pol (Suc n) v = add_zeros pol n (Vector_add pol 0 v)"

text \<open>
  The inner scan \<open>for (; j >= 0; --j) if (block of chars[j] is not the diacritics) break;\<close>
  It answers the \<open>j\<close> at which it stops: the main code point, or -1.
\<close>

function findMain :: "env \<Rightarrow> UChar list \<Rightarrow> int \<Rightarrow> int" where
  "findMain e chars j =
     (if 0 \<le> j
      then (if ublock_getCode e (elem_at chars (nat j)) \<noteq> UBLOCK_COMBINING_DIACRITICAL_MARKS
            then j else findMain e chars (j - 1))
      else j)"
  by pat_completeness auto
termination
  by (relation "measure (\<lambda>(e, chars, j). nat (j + 1))") auto

declare findMain.simps [simp del]

lemma findMain_less: "findMain e chars j \<le> j"
  by (induction e chars j rule: findMain.induct) (subst findMain.simps, auto)

text \<open>
  One chunk of the normalization loop: the main code point at \<open>j\<close> with its diacritics
  up to \<open>i\<close> is normalized into \<open>mBuffer\<close>; on success the normalized string takes the
  composed units from \<open>j\<close> on and ZWSP up to \<open>i\<close>. The state is
  \<open>useNormalizedString\<close>, \<open>mNormalizedString\<close>, \<open>mBuffer\<close> and \<open>error\<close>.
\<close>

definition normalizeChunk ::
  "env \<Rightarrow> UChar list \<Rightarrow> size_t \<Rightarrow> int \<Rightarrow> int \<Rightarrow> bool \<times> UChar list \<times> UChar list \<times> int
     \<Rightarrow> bool \<times> UChar list \<times> UChar list \<times> int" where
  "normalizeChunk e chars cnt j i st =
     (case st of (useNormalizedString, nstr, buf, err) \<Rightarrow>
       (let r = Normalizer_normalize e (chars_slice chars (nat j) (nat (i - j + 1))) err;
            buf' = fst r;
            err' = snd r;
            nstr0 = (if useNormalizedString then nstr else chars_slice chars 0 (unat cnt));
            nstr1 = foldl (\<lambda>s k. setCharAt (j + int k) (elem_at buf' k) s) nstr0
                      [0..<length buf'];
            nstr2 = foldl (\<lambda>s k. setCharAt k UNICODE_ZWSP s) nstr1
                      [j + int (length buf')..i]
        in if U_SUCCESS err' then (True, nstr2, buf', err')
           else (useNormalizedString, nstr, buf', err')))"

text \<open>
  The normalization loop, \<open>for (ssize_t i = count - 1; i >= 0; --i)\<close>. After a chunk
  from \<open>j\<close> to \<open>i\<close> the body sets \<open>i = j - 1\<close> and the loop header decrements once more,
  so the next index looked at is \<open>j - 2\<close>. When no main code point is found the loop is
  left (\<open>break\<close>).
\<close>

function normalizeLoop ::
  "env \<Rightarrow> UChar list \<Rightarrow> size_t \<Rightarrow> int \<Rightarrow> bool \<times> UChar list \<times> UChar list \<times> int
     \<Rightarrow> bool \<times> UChar list \<times> UChar list \<times> int" where
  "normalizeLoop e chars cnt i st =
     (if i < 0 then st
      else if ublock_getCode e (elem_at chars (nat i)) = UBLOCK_COMBINING_DIACRITICAL_MARKS
      then (if findMain e chars (i - 1) < 0 then st
            else normalizeLoop e chars cnt (findMain e chars (i - 1) - 2)
                   (normalizeChunk e chars cnt (findMain e chars (i - 1)) i st))
      else normalizeLoop e chars cnt (i - 1) st)"
  by pat_completeness auto
termination
  apply (relation "measure (\<lambda>(e, chars, cnt, i, st). nat (i + 1))")
    apply simp
  subgoal for e chars cnt i st
    using findMain_less [of e chars "i - 1"] by simp
  apply simp
  done

declare normalizeLoop.simps [simp del]

text \<open>
  The mirroring loop of the RTL case, one step for index \<open>i\<close>: the original character
  decides, and its mirror is written into the normalized string.
\<close>

definition mirrorStep :: "env \<Rightarrow> UChar list \<Rightarrow> size_t \<Rightarrow> bool \<times> UChar list \<Rightarrow> nat \<Rightarrow> bool \<times> UChar list" where
  "mirrorStep e chars cnt st i =
     (let ch = (ucast (elem_at chars i) :: 32 word) in
      if \<not> u_isMirrored e ch then st
      else (True, setCharAt (int i) (ucast (u_charMirror e ch))
                    (if fst st then snd st else chars_slice chars 0 (unat cnt))))"

definition mirrorLoop :: "env \<Rightarrow> UChar list \<Rightarrow> size_t \<Rightarrow> bool \<times> UChar list \<Rightarrow> bool \<times> UChar list" where
  "mirrorLoop e chars cnt st = foldl (mirrorStep e chars cnt) st [0..<nat (ssize_t_of cnt)]"

text \<open>
  One round of the log-cluster loop for character \<open>i\<close> of the script run. The state is
  \<open>totalFontRunAdvance\<close>, \<open>clusterStart\<close> and \<open>outAdvances\<close>. The advance of a cluster is
  written at \<open>startScriptRun + clusterStart\<close>: an index counted from the start of the
  run's characters.
\<close>

definition clusterStep ::
  "env \<Rightarrow> HB_ShaperItem \<Rightarrow> nat \<Rightarrow> nat \<Rightarrow> jfloat \<times> nat \<times> jfloat Vector \<Rightarrow> nat
     \<Rightarrow> jfloat \<times> nat \<times> jfloat Vector" where
  "clusterStep e it startScriptRun countScriptRun st i =
     (case st of (totalFontRunAdvance, clusterStart, outAdvances) \<Rightarrow>
       (let cluster = unat (elem_at (log_clusters it) i);
            clusterNext = (if i = countScriptRun - 1 then unat (num_glyphs it)
                           else unat (elem_at (log_clusters it) (i + 1)))
        in if cluster \<noteq> clusterNext
           then (let advance = (\<Sum>j\<leftarrow>[cluster..<clusterNext]. HBFixedToFloat e (elem_at (advances it) j))
                 in (totalFontRunAdvance + advance, i + 1,
                     Vector_replaceAt advance (startScriptRun + clusterStart) outAdvances))
           else st))"

definition clusterLoop ::
  "env \<Rightarrow> HB_ShaperItem \<Rightarrow> nat \<Rightarrow> nat \<Rightarrow> jfloat Vector \<Rightarrow> jfloat \<times> nat \<times> jfloat Vector" where
  "clusterLoop e it startScriptRun countScriptRun outAdvances =
     foldl (clusterStep e it startScriptRun countScriptRun) (0, 0, outAdvances)
       [0..<countScriptRun]"

text \<open>The glyph loop: the glyph ids, reversed for RTL, each offset by the base glyph count.\<close>

definition glyphIndex :: "bool \<Rightarrow> nat \<Rightarrow> nat \<Rightarrow> nat" where
  "glyphIndex isRTL countGlyphs i = (if \<not> isRTL then i else countGlyphs - 1 - i)"

definition glyphLoop :: "env \<Rightarrow> HB_ShaperItem \<Rightarrow> bool \<Rightarrow> size_t \<Rightarrow> jchar Vector \<Rightarrow> jchar Vector" where
  "glyphLoop e it isRTL glyphBaseCount outGlyphs =
     foldl (\<lambda>v i. Vector_add (Vector_capacity_policy e)
                    (ucast (glyphBaseCount
                       + ucast (ucast (elem_at (glyphs it)
                           (glyphIndex isRTL (unat (num_glyphs it)) i)) :: 16 word)) :: jchar) v)
       outGlyphs [0..<unat (num_glyphs it)]"

text \<open>The position loop: the state is the pen position \<open>x\<close> and \<open>outPos\<close>.\<close>

definition posStep :: "env \<Rightarrow> HB_ShaperItem \<Rightarrow> bool \<Rightarrow> jfloat \<Rightarrow> jfloat \<times> jfloat Vector \<Rightarrow> nat \<Rightarrow> jfloat \<times> jfloat Vector" where
  "posStep e it isRTL skewX st i =
     (case st of (x, outPos) \<Rightarrow>
       (let index = glyphIndex isRTL (unat (num_glyphs it)) i;
            xo = HBFixedToFloat e (fst (point_at (offsets it) index));
            yo = HBFixedToFloat e (snd (point_at (offsets it) index))
        in (x + HBFixedToFloat e (elem_at (advances it) index),
            Vector_add (Vector_capacity_policy e) yo
              (Vector_add (Vector_capacity_policy e) (x + xo + yo * skewX) outPos))))"

definition posLoop :: "env \<Rightarrow> HB_ShaperItem \<Rightarrow> bool \<Rightarrow> jfloat \<Rightarrow> jfloat \<Rightarrow> jfloat Vector \<Rightarrow> jfloat Vector" where
  "posLoop e it isRTL skewX totalAdvance outPos =
     snd (foldl (posStep e it isRTL skewX) (totalAdvance, outPos) [0..<unat (num_glyphs it)])"

text \<open>
  The body of the script-run loop after \<open>shapeFontRun\<close> has returned: a run with NULL
  advances or no glyphs is skipped (\<open>continue\<close>); otherwise the advances, glyphs and
  positions are written and the run's advance is added to the local \<open>totalAdvance\<close>.
\<close>

definition processScriptRun ::
  "env \<Rightarrow> bool \<Rightarrow> jfloat \<Rightarrow> size_t \<Rightarrow> nat \<Rightarrow> nat \<Rightarrow> HB_ShaperItem \<Rightarrow> jfloat \<times> TextLayoutValue
     \<Rightarrow> jfloat \<times> TextLayoutValue" where
  "processScriptRun e isRTL skewX glyphBaseCount startScriptRun countScriptRun it st =
     (case st of (totalAdvance, v) \<Rightarrow>
       if arrays_null it \<or> num_glyphs it = 0 then st
       else (let cl = clusterLoop e it startScriptRun countScriptRun (mAdvances v);
                 totalFontRunAdvance = fst cl;
                 outAdvances = snd (snd cl);
                 outGlyphs = glyphLoop e it isRTL glyphBaseCount (mGlyphs v);
                 outPos = posLoop e it isRTL skewX totalAdvance (mPos v)
             in (totalAdvance + totalFontRunAdvance,
                 v \<lparr> mAdvances := outAdvances, mGlyphs := outGlyphs, mPos := outPos \<rparr>)))"

text \<open>
  The script-run loop: \<open>while (isRTL ? hb_utf16_script_run_prev(...) : hb_utf16_script_run_next(...))\<close>.
  It ends when the iterator says false; an iterator that never does gives \<open>None\<close>, and
  so does a shaping retry loop that never ends. The state is the shaper, the cursor
  \<open>indexFontRun\<close>, the local \<open>totalAdvance\<close> and the output vectors.
\<close>

partial_function (option) scriptRunLoop ::
  "env \<Rightarrow> SkPaint \<Rightarrow> bool \<Rightarrow> TextLayoutShaper \<Rightarrow> int \<Rightarrow> jfloat \<Rightarrow> TextLayoutValue
     \<Rightarrow> (TextLayoutShaper \<times> jfloat \<times> TextLayoutValue) option" where
  "scriptRunLoop e paint isRTL sh indexFontRun totalAdvance v =
     (case (if isRTL then hb_utf16_script_run_prev e else hb_utf16_script_run_next e)
             (shaper_string (mShaperItem sh)) (unat (stringLength (mShaperItem sh))) indexFontRun of
        None \<Rightarrow> Some (sh, totalAdvance, v)
      | Some r \<Rightarrow>
          Option.bind
            (shapeFontRun e paint isRTL (sh \<lparr> mShaperItem := (mShaperItem sh) \<lparr> item := fst r \<rparr> \<rparr>))
            (\<lambda>s. let p = processScriptRun e isRTL (getTextSkewX paint) (fst s)
                             (nat (ssize_t_of (item_pos (fst r)))) (unat (item_length (fst r)))
                             (mShaperItem (snd s)) (totalAdvance, v)
                 in scriptRunLoop e paint isRTL (snd s) (snd r) (fst p) (snd p)))"

text \<open>
  \<open>computeRunValues(paint, chars, count, isRTL, outAdvances, outTotalAdvance, outGlyphs, outPos)\<close>;
  the four outputs are the members of the value.
\<close>

definition computeRunValues ::
  "env \<Rightarrow> SkPaint \<Rightarrow> UChar list \<Rightarrow> size_t \<Rightarrow> bool \<Rightarrow> TextLayoutShaper \<Rightarrow> TextLayoutValue
     \<Rightarrow> (TextLayoutShaper \<times> TextLayoutValue) option" where
  "computeRunValues e paint chars cnt isRTL sh v =
     (if cnt = 0 then Some (sh, v)
      else
        (let outAdvances = add_zeros (Vector_capacity_policy e) (unat cnt) (mAdvances v);
             n = normalizeLoop e chars cnt (ssize_t_of (cnt - 1))
                   (False, mNormalizedString sh, mBuffer sh, U_ZERO_ERROR);
             m = (if isRTL then mirrorLoop e chars cnt (fst n, fst (snd n))
                  else (fst n, fst (snd n)));
             useNormalizedString = fst m;
             it = (mShaperItem sh)
                    \<lparr> shaper_string := (if useNormalizedString then snd m else chars),
                      stringLength := cnt \<rparr>;
             sp = (mShapingPaint sh)
                    \<lparr> getTextSize := getTextSize paint,
                      getTextSkewX := getTextSkewX paint,
                      getTextScaleX := getTextScaleX paint,
                      getFlags := getFlags paint,
                      getHinting := getHinting paint,
                      getFontVariant := getFontVariant paint,
                      getLanguage := getLanguage paint \<rparr>;
             sh1 = sh \<lparr> mShaperItem := it, mShapingPaint := sp,
                        mNormalizedString := snd m, mBuffer := fst (snd (snd n)) \<rparr>;
             indexFontRun = (if isRTL then ssize_t_of (stringLength it - 1) else 0)
         in map_option (\<lambda>(sh', totalAdvance, v'). (sh', v' \<lparr> mTotalAdvance := totalAdvance \<rparr>))
              (scriptRunLoop e paint isRTL sh1 indexFontRun (mTotalAdvance v)
                 (v \<lparr> mAdvances := outAdvances \<rparr>))))"

section \<open>computeValues\<close>

text \<open>
  The fallback assignment of the two bidi failure paths,
  \<open>isRTL = (bidiReq = 1) || (bidiReq = UBIDI_DEFAULT_RTL);\<close>
  Both operands are assignments: the first stores 1 in \<open>bidiReq\<close> and yields it, and
  the second is evaluated only when the first yields 0.
\<close>

definition fallback_isRTL :: "8 word \<Rightarrow> bool" where
  "fallback_isRTL bidiReq =
     (let bidiReq1 = (1 :: 8 word) in
      if bidiReq1 \<noteq> 0 then True
      else (let bidiReq2 = UBIDI_DEFAULT_RTL in bidiReq2 \<noteq> 0))"

text \<open>
  The loop over the visual runs, \<open>for (size_t i = 0; i < size_t(rc); ++i)\<close>, as a
  recursion over the indices still to come. The state is the shaper, the value,
  \<open>isRTL\<close> and \<open>useSingleRun\<close>. An invalid run clears the outputs and leaves the loop
  (\<open>break\<close>); a run outside the window is skipped; any other run is clipped to the
  window and shaped. The \<open>int32_t\<close> variables are integers, \<open>int32_t(start)\<close> is
  \<open>sint start\<close>, and \<open>lengthRun\<close> becomes the \<open>size_t count\<close> of the callee.
\<close>

fun bidiRunLoop ::
  "env \<Rightarrow> SkPaint \<Rightarrow> UChar list \<Rightarrow> size_t \<Rightarrow> int \<Rightarrow> UBiDi \<Rightarrow> nat list
     \<Rightarrow> TextLayoutShaper \<times> TextLayoutValue \<times> bool \<times> bool
     \<Rightarrow> (TextLayoutShaper \<times> TextLayoutValue \<times> bool \<times> bool) option" where
  "bidiRunLoop e paint chars st endW bidi [] s = Some s"
| "bidiRunLoop e paint chars st endW bidi (i # rest) s =
     (case s of (sh, v, isRTL, useSingleRun) \<Rightarrow>
       (case ubidi_getVisualRun bidi i of (runDir, startRun, lengthRun) \<Rightarrow>
          if startRun = - 1 \<or> lengthRun = - 1
          then Some (sh,
                 v \<lparr> mGlyphs := Vector_clear (Vector_capacity_policy e) (mGlyphs v),
                     mAdvances := Vector_clear (Vector_capacity_policy e) (mAdvances v),
                     mPos := Vector_clear (Vector_capacity_policy e) (mPos v),
                     mTotalAdvance := 0 \<rparr>,
                 (ubidi_getParaLevel bidi AND kDirection_Mask) = 1, True)
          else if endW \<le> startRun then bidiRunLoop e paint chars st endW bidi rest s
          else if startRun + lengthRun \<le> sint st then bidiRunLoop e paint chars st endW bidi rest s
          else
            (let startRun' = (if startRun < sint st then sint st else startRun);
                 endRun' = (if endW < startRun + lengthRun then endW else startRun + lengthRun);
                 lengthRun' = endRun' - startRun';
                 isRTL' = (runDir = UBIDI_RTL)
             in case computeRunValues e paint (drop (nat startRun') chars) (word_of_int lengthRun')
                       isRTL' sh v of
                  None \<Rightarrow> None
                | Some (sh', v') \<Rightarrow>
                    bidiRunLoop e paint chars st endW bidi rest (sh', v', isRTL', useSingleRun))))"

text \<open>
  \<open>TextLayoutShaper::computeValues\<close>. \<open>chars\<close> is the whole context (the key's copy).
  The result is the shaper and the value after the call, or \<open>None\<close> when a loop inside
  never ends.
\<close>

definition computeValues ::
  "env \<Rightarrow> SkPaint \<Rightarrow> UChar list \<Rightarrow> size_t \<Rightarrow> size_t \<Rightarrow> size_t \<Rightarrow> 32 word
     \<Rightarrow> TextLayoutShaper \<Rightarrow> TextLayoutValue \<Rightarrow> (TextLayoutShaper \<times> TextLayoutValue) option" where
  "computeValues e paint chars st cnt ctx dir sh v0 =
     (let v = v0 \<lparr> mTotalAdvance := 0 \<rparr> in
      if cnt = 0 then Some (sh, v)
      else
        (let bidiReq = (if dir = kBidi_LTR then 0
                        else if dir = kBidi_RTL then 1
                        else if dir = kBidi_Default_LTR then UBIDI_DEFAULT_LTR
                        else if dir = kBidi_Default_RTL then UBIDI_DEFAULT_RTL
                        else 0);
             forceLTR = (dir = kBidi_Force_LTR);
             forceRTL = (dir = kBidi_Force_RTL);
             singleRun = (\<lambda>isRTL sh' v'. computeRunValues e paint (drop (unat st) chars) cnt isRTL sh' v')
         in if forceLTR \<or> forceRTL then singleRun forceRTL sh v
            else if ubidi_open e
            then (case ubidi_setPara e chars (unat ctx) bidiReq of
                    Some bidi \<Rightarrow>
                      (let paraDir = ubidi_getParaLevel bidi AND kDirection_Mask;
                           rc = ubidi_countRuns bidi
                       in if ubidi_countRuns_success bidi \<and> rc = 1
                          then singleRun (paraDir = 1) sh v
                          else if \<not> ubidi_countRuns_success bidi \<or> rc < 1
                          then singleRun (paraDir = 1) sh v
                          else (case bidiRunLoop e paint chars st (sint (st + cnt)) bidi
                                       [0..<nat rc] (sh, v, forceRTL, False) of
                                  None \<Rightarrow> None
                                | Some (sh', v', isRTL, useSingleRun) \<Rightarrow>
                                    if useSingleRun then singleRun isRTL sh' v'
                                    else Some (sh', v')))
                  | None \<Rightarrow> singleRun (fallback_isRTL bidiReq) sh v)
            else singleRun (fallback_isRTL bidiReq) sh v))"

section \<open>TextLayoutCache\<close>

text \<open>
  The two \<open>LOG_ALWAYS_FATAL_IF\<close> checks of \<open>getValue\<close> abort the process.
\<close>

datatype fatal = Fatal_removeOldest | Fatal_put

text \<open>
  \<open>mCache\<close> is a \<open>GenerationCache<TextLayoutCacheKey, sp<TextLayoutValue> >\<close> of
  unlimited capacity: its entries in recency order, oldest first. \<open>mNextObject\<close> is not
  a member: it is the address that the next \<open>new TextLayoutValue\<close> returns.
\<close>

record TextLayoutCache =
  mShaper :: TextLayoutShaper
  mCache :: "(TextLayoutCacheKey \<times> TextLayoutValue) list"
  mSize :: size_t
  mMaxSize :: size_t
  mNextObject :: nat

definition TextLayoutCache_new :: "env \<Rightarrow> size_t \<Rightarrow> TextLayoutCache" where
  "TextLayoutCache_new e maxSize =
     \<lparr> mShaper = TextLayoutShaper_new e, mCache = [], mSize = 0, mMaxSize = maxSize,
       mNextObject = 0 \<rparr>"

text \<open>
  Modelled from the spec: GenerationCache.h is not among the sources. The spec's
  recency list: \<open>get\<close> finds the entry whose key compares equal (the container orders
  keys by \<open>TextLayoutCacheKey::compare\<close>) and makes it the youngest; \<open>put\<close> refuses a
  key that is present and otherwise appends the entry as the youngest; \<open>removeOldest\<close>
  reports false on an empty cache and otherwise takes the oldest entry out, telling the
  removal listener.
\<close>

definition GenerationCache_get ::
  "(TextLayoutCacheKey \<times> TextLayoutValue) list \<Rightarrow> TextLayoutCacheKey
     \<Rightarrow> TextLayoutValue option \<times> (TextLayoutCacheKey \<times> TextLayoutValue) list" where
  "GenerationCache_get c key =
     (case find (\<lambda>kv. compare (fst kv) key = 0) c of
        None \<Rightarrow> (None, c)
      | Some kv \<Rightarrow> (Some (snd kv), remove1 kv c @ [kv]))"

definition GenerationCache_put ::
  "(TextLayoutCacheKey \<times> TextLayoutValue) list \<Rightarrow> TextLayoutCacheKey \<Rightarrow> TextLayoutValue
     \<Rightarrow> bool \<times> (TextLayoutCacheKey \<times> TextLayoutValue) list" where
  "GenerationCache_put c key v =
     (case find (\<lambda>kv. compare (fst kv) key = 0) c of
        None \<Rightarrow> (True, c @ [(key, v)])
      | Some kv \<Rightarrow> (False, c))"

text \<open>
  The removal listener, \<open>TextLayoutCache::operator()(key, value)\<close>:
  \<open>mSize -= key.getSize() + value->getSize()\<close>.
\<close>

definition entryRemoved :: "env \<Rightarrow> TextLayoutCacheKey \<Rightarrow> TextLayoutValue \<Rightarrow> TextLayoutCache \<Rightarrow> TextLayoutCache" where
  "entryRemoved e k v c = c \<lparr> mSize := mSize c - (key_getSize e k + value_getSize e v) \<rparr>"

definition removeOldest :: "env \<Rightarrow> TextLayoutCache \<Rightarrow> bool \<times> TextLayoutCache" where
  "removeOldest e c =
     (case mCache c of
        [] \<Rightarrow> (False, c)
      | kv # rest \<Rightarrow> (True, entryRemoved e (fst kv) (snd kv) (c \<lparr> mCache := rest \<rparr>)))"

text \<open>
  \<open>while (mSize + size > mMaxSize) { removedOne = mCache.removeOldest(); LOG_ALWAYS_FATAL_IF(!removedOne, ...); }\<close>
\<close>

function evictLoop :: "env \<Rightarrow> size_t \<Rightarrow> TextLayoutCache \<Rightarrow> fatal + TextLayoutCache" where
  "evictLoop e sz c =
     (if mSize c + sz > mMaxSize c
      then (if \<not> fst (removeOldest e c) then Inl Fatal_removeOldest
            else evictLoop e sz (snd (removeOldest e c)))
      else Inr c)"
  by pat_completeness auto
termination
  by (relation "measure (\<lambda>(e, sz, c). length (mCache c))")
     (auto simp add: removeOldest_def entryRemoved_def split: list.splits)

declare evictLoop.simps [simp del]

text \<open>
  \<open>TextLayoutCache::getValue(paint, text, start, count, contextCount, dirFlags)\<close>. The
  \<open>jint\<close> arguments arrive as their 32-bit patterns (the code converts them to
  \<open>size_t\<close>). The result is \<open>None\<close> when the call never returns, \<open>Inl\<close> when a fatal check
  aborts it, and otherwise the returned pointer (\<open>None\<close> for NULL) with the cache after
  the call.
\<close>

definition getValue ::
  "env \<Rightarrow> TextLayoutCache \<Rightarrow> SkPaint \<Rightarrow> UChar list \<Rightarrow> 32 word \<Rightarrow> 32 word \<Rightarrow> 32 word \<Rightarrow> 32 word
     \<Rightarrow> (fatal + TextLayoutValue option \<times> TextLayoutCache) option" where
  "getValue e c paint chars st cnt ctx dir =
     (let key = TextLayoutCacheKey_new paint chars st cnt ctx dir;
          g = GenerationCache_get (mCache c) key
      in case fst g of
           Some v \<Rightarrow> Some (Inr (Some v, c \<lparr> mCache := snd g \<rparr>))
         | None \<Rightarrow>
             (case computeValues e paint (getText key) st cnt ctx dir (mShaper c)
                     (TextLayoutValue_new e (mNextObject c) ctx) of
                None \<Rightarrow> None
              | Some (sh, v) \<Rightarrow>
                  (let c1 = c \<lparr> mCache := snd g, mShaper := sh, mNextObject := Suc (mNextObject c) \<rparr>;
                       sz = key_getSize e key + value_getSize e v
                   in if sz \<le> mMaxSize c1
                      then (case evictLoop e sz c1 of
                              Inl f \<Rightarrow> Some (Inl f)
                            | Inr c2 \<Rightarrow>
                                (let c3 = c2 \<lparr> mSize := mSize c2 + sz \<rparr>;
                                     p = GenerationCache_put (mCache c3) key v
                                 in if \<not> fst p then Some (Inl Fatal_put)
                                    else Some (Inr (Some v, c3 \<lparr> mCache := snd p \<rparr>))))
                      else Some (Inr (Some v, c1)))))"

text \<open>
  \<open>TextLayoutCache::purgeCaches\<close>: \<open>mCache.clear()\<close> tells the listener about every
  entry and empties the cache; then the shaper purges its own caches.
\<close>

definition purgeCaches :: "env \<Rightarrow> TextLayoutCache \<Rightarrow> TextLayoutCache" where
  "purgeCaches e c =
     (foldl (\<lambda>c' kv. entryRemoved e (fst kv) (snd kv) c') c (mCache c))
       \<lparr> mCache := [], mShaper := TextLayoutShaper_purgeCaches e (mShaper c) \<rparr>"

section \<open>Contracts of the external collaborators\<close>





text \<open>
  The contract of the shaper library: when \<open>HB_ShapeItem\<close> returns false, the capacity
  was too small, \<open>num_glyphs\<close> holds the count it needs (twice of which fits
  \<open>size_t\<close>), and the same request with at least that capacity succeeds.
\<close>

definition shaper_contract :: "env \<Rightarrow> bool" where
  "shaper_contract e =
     (\<forall>r. \<not> res_ok (HB_ShapeItem e r) \<longrightarrow>
          req_num_glyphs r < res_num_glyphs (HB_ShapeItem e r) \<and>
          unat (res_num_glyphs (HB_ShapeItem e r)) * 2 < 2 ^ 32 \<and>
          (\<forall>c. res_num_glyphs (HB_ShapeItem e r) \<le> c \<longrightarrow>
               res_ok (HB_ShapeItem e (r \<lparr> req_num_glyphs := c \<rparr>))))"

text \<open>
  The shaper library as a function of what it is asked to shape: the answer of a
  successful attempt does not depend on the capacity offered and fits it, and the faces
  made for one font are one face.
\<close>

definition shaping_deterministic :: "env \<Rightarrow> bool" where
  "shaping_deterministic e =
     ((\<forall>r c. res_ok (HB_ShapeItem e r) \<longrightarrow>
             res_ok (HB_ShapeItem e (r \<lparr> req_num_glyphs := c \<rparr>)) \<longrightarrow>
             HB_ShapeItem e (r \<lparr> req_num_glyphs := c \<rparr>) = HB_ShapeItem e r) \<and>
      (\<forall>r. res_ok (HB_ShapeItem e r) \<longrightarrow> res_num_glyphs (HB_ShapeItem e r) \<le> req_num_glyphs r) \<and>
      (\<forall>tf tf'. SkTypeface_uniqueID e tf = SkTypeface_uniqueID e tf' \<longrightarrow>
                HB_NewFace e tf = HB_NewFace e tf'))"



section \<open>Invariants of the cache\<close>

text \<open>The size an entry is accounted with: \<open>key.getSize() + value->getSize()\<close>.\<close>

definition entry_size :: "env \<Rightarrow> TextLayoutCacheKey \<times> TextLayoutValue \<Rightarrow> size_t" where
  "entry_size e kv = key_getSize e (fst kv) + value_getSize e (snd kv)"



text \<open>A layout with nothing in it, and the cache whose entries for empty windows are such.\<close>

definition empty_layout :: "TextLayoutValue \<Rightarrow> bool" where
  "empty_layout v =
     (mTotalAdvance v = 0 \<and> items (mAdvances v) = [] \<and> items (mGlyphs v) = [] \<and>
      items (mPos v) = [])"

definition cache_values_ok :: "TextLayoutCache \<Rightarrow> bool" where
  "cache_values_ok c = list_all (\<lambda>kv. count (fst kv) \<noteq> 0 \<or> empty_layout (snd kv)) (mCache c)"

text \<open>
  A shaper in order: the cached faces are the faces of their fonts, the default typeface
  is the one \<open>init\<close> creates, and the array pointers are NULL only as long as the array
  size is 0.
\<close>

definition shaper_ok :: "env \<Rightarrow> TextLayoutShaper \<Rightarrow> bool" where
  "shaper_ok e sh =
     ((\<forall>tf f. mCachedHBFaces sh (SkTypeface_uniqueID e tf) = Some f \<longrightarrow> f = HB_NewFace e tf) \<and>
      mDefaultTypeface sh = SkFontHost_CreateTypeface e \<and>
      (arrays_null (mShaperItem sh) \<longrightarrow> mShaperItemGlyphArraySize sh = 0))"

text \<open>
  A shaper after a successful attempt on the request of an earlier shaper, with the
  capacity of its arrays: \<open>mShaperItem\<close> holds the shaper library's answer.
\<close>

definition shaped :: "env \<Rightarrow> TextLayoutShaper \<Rightarrow> TextLayoutShaper \<Rightarrow> bool" where
  "shaped e sh sh' =
     (let r = HB_ShapeItem e ((shapeRequest sh) \<lparr> req_num_glyphs := mShaperItemGlyphArraySize sh' \<rparr>)
      in res_ok r \<and>
         num_glyphs (mShaperItem sh') = res_num_glyphs r \<and>
         glyphs (mShaperItem sh') = res_glyphs r \<and>
         advances (mShaperItem sh') = res_advances r \<and>
         offsets (mShaperItem sh') = res_offsets r \<and>
         log_clusters (mShaperItem sh') = res_log_clusters r \<and>
         mCachedHBFaces sh' = mCachedHBFaces sh \<and>
         mDefaultTypeface sh' = mDefaultTypeface sh \<and>
         mShapingPaint sh' = mShapingPaint sh \<and>
         (arrays_null (mShaperItem sh') \<longrightarrow>
            arrays_null (mShaperItem sh) \<and>
            mShaperItemGlyphArraySize sh' = mShaperItemGlyphArraySize sh))"

text \<open>Two paints that differ at most in the typeface.\<close>

definition same_style :: "SkPaint \<Rightarrow> SkPaint \<Rightarrow> bool" where
  "same_style p q =
     (getTextSize p = getTextSize q \<and> getTextSkewX p = getTextSkewX q \<and>
      getTextScaleX p = getTextScaleX q \<and> getFlags p = getFlags q \<and>
      getHinting p = getHinting q \<and> getFontVariant p = getFontVariant q \<and>
      getLanguage p = getLanguage q)"

text \<open>Two values with the same contents: they may be different objects.\<close>

definition same_layout :: "TextLayoutValue \<Rightarrow> TextLayoutValue \<Rightarrow> bool" where
  "same_layout v w =
     (mAdvances v = mAdvances w \<and> mTotalAdvance v = mTotalAdvance w \<and>
      mGlyphs v = mGlyphs w \<and> mPos v = mPos w)"

text \<open>
  The paint of a key, and the cache whose values were computed for their keys: each has
  the contents that \<open>computeValues\<close> gave for the key's request on a shaper in order.
\<close>

definition paint_of_key :: "TextLayoutCacheKey \<Rightarrow> SkPaint" where
  "paint_of_key k =
     \<lparr> getTypeface = typeface k, getTextSize = textSize k, getTextSkewX = textSkewX k,
       getTextScaleX = textScaleX k, getFlags = flags k, getHinting = hinting k,
       getFontVariant = variant k, getLanguage = language k \<rparr>"

definition cache_computed :: "env \<Rightarrow> TextLayoutCache \<Rightarrow> bool" where
  "cache_computed e c =
     list_all (\<lambda>kv. \<exists>sh obj sh' w.
                 shaper_ok e sh \<and>
                 computeValues e (paint_of_key (fst kv)) (getText (fst kv)) (start (fst kv))
                   (count (fst kv)) (contextCount (fst kv)) (dirFlags (fst kv)) sh
                   (TextLayoutValue_new e obj (contextCount (fst kv))) = Some (sh', w) \<and>
                 same_layout (snd kv) w)
       (mCache c)"

section \<open>A concrete environment\<close>

text \<open>
  A small instance of the external collaborators, on which the definitions above can be
  run: one script run per string (of less than \<open>2^31\<close> units), one glyph of advance 10
  (640 in 26.6 fixed point) per code unit, a two-unit text resolved into an LTR run
  followed by an RTL run and any other text into a single LTR run, a normalizer that
  changes nothing and no mirrored characters.
\<close>

definition ex_bidi :: "nat \<Rightarrow> UBiDi" where
  "ex_bidi n =
     \<lparr> ubidi_getParaLevel = 0,
       ubidi_countRuns_success = True,
       ubidi_countRuns = (if n = 2 then 2 else 1),
       ubidi_getVisualRun =
         (\<lambda>i. if n = 2 then (if i = 0 then (UBIDI_LTR, 0, 1) else (UBIDI_RTL, 1, 1))
              else (UBIDI_LTR, 0, int n)) \<rparr>"

definition ex_script_run_next :: "UChar list \<Rightarrow> nat \<Rightarrow> int \<Rightarrow> (HB_ScriptItem \<times> int) option" where
  "ex_script_run_next s len i =
     (if 0 \<le> i \<and> i < int len \<and> len < 2 ^ 31
      then Some (\<lparr> item_pos = word_of_int i, item_length = word_of_int (int len - i),
                    item_script = HB_Script_Common, item_bidiLevel = 0 \<rparr>, int len)
      else None)"

definition ex_script_run_prev :: "UChar list \<Rightarrow> nat \<Rightarrow> int \<Rightarrow> (HB_ScriptItem \<times> int) option" where
  "ex_script_run_prev s len i =
     (if 0 \<le> i \<and> i < int len \<and> len < 2 ^ 31
      then Some (\<lparr> item_pos = 0, item_length = word_of_int (i + 1),
                    item_script = HB_Script_Common, item_bidiLevel = 0 \<rparr>, - 1)
      else None)"

definition ex_ShapeItem :: "HB_ShapeRequest \<Rightarrow> HB_ShapeResult" where
  "ex_ShapeItem r =
     (let n = item_length (req_item r) in
      if \<not> unat n < 2 ^ 31
      then \<lparr> res_ok = True, res_num_glyphs = 0, res_glyphs = [], res_advances = [],
             res_offsets = [], res_log_clusters = [], res_kerning_applied = False \<rparr>
      else if req_num_glyphs r < n
      then \<lparr> res_ok = False, res_num_glyphs = n, res_glyphs = [], res_advances = [],
             res_offsets = [], res_log_clusters = [], res_kerning_applied = False \<rparr>
      else \<lparr> res_ok = True, res_num_glyphs = n,
             res_glyphs = map (\<lambda>i. ucast (elem_at (req_string r) (unat (item_pos (req_item r)) + i)))
                            [0..<unat n],
             res_advances = replicate (unat n) 640,
             res_offsets = replicate (unat n) (0, 0),
             res_log_clusters = map of_nat [0..<unat n],
             res_kerning_applied = False \<rparr>)"

definition ex_capacity_policy :: "Vector_op \<Rightarrow> nat \<Rightarrow> nat \<Rightarrow> nat" where
  "ex_capacity_policy op cap sz =
     (case op of
        Op_setCapacity n \<Rightarrow> (if n \<le> sz then cap else n)
      | Op_add \<Rightarrow> (if cap < sz + 1 then max 4 (((sz + 1) * 3 + 1) div 2) else cap)
      | Op_clear \<Rightarrow> 0)"

definition ex_env :: env where
  "ex_env =
     \<lparr> ubidi_open = True,
       ubidi_setPara = (\<lambda>chars n req. Some (ex_bidi n)),
       ublock_getCode = (\<lambda>c. if 0x300 \<le> c \<and> c \<le> 0x36F then 7 else 1),
       Normalizer_normalize = (\<lambda>src err. (src, err)),
       u_isMirrored = (\<lambda>c. False),
       u_charMirror = (\<lambda>c. c),
       hb_utf16_script_run_next = ex_script_run_next,
       hb_utf16_script_run_prev = ex_script_run_prev,
       HB_ShapeItem = ex_ShapeItem,
       HB_NewFace = (\<lambda>tf. 1),
       HBFixedToFloat = (\<lambda>v. real_of_int (sint v) / 64),
       SkFontHost_CreateTypeface = 1,
       SkCreateTypefaceForScript = (\<lambda>script style. 0),
       SkTypeface_style = (\<lambda>tf. 0),
       SkTypeface_uniqueID = (\<lambda>tf. tf),
       SkFontHost_GetUnitsPerEm = (\<lambda>fontId. 2048),
       getBaseGlyphCount = (\<lambda>paint c. 0),
       Vector_capacity_policy = ex_capacity_policy,
       sizeof_TextLayoutCacheKey = 64,
       sizeof_TextLayoutValue = 64 \<rparr>"

definition ex_paint :: SkPaint where
  "ex_paint =
     \<lparr> getTypeface = 0, getTextSize = 12, getTextSkewX = 0, getTextScaleX = 1,
       getFlags = 0, getHinting = 0, getFontVariant = 0, getLanguage = 0 \<rparr>"

text \<open>A shaper as the script-run loop hands it to \<open>shapeFontRun\<close>: a run of \<open>n\<close> units.\<close>

definition ex_shaper :: "32 word \<Rightarrow> TextLayoutShaper \<Rightarrow> TextLayoutShaper" where
  "ex_shaper n sh =
     sh \<lparr> mShaperItem := (mShaperItem sh)
            \<lparr> shaper_string := replicate (unat n) 0x61, stringLength := n,
              item := \<lparr> item_pos = 0, item_length = n, item_script = HB_Script_Common,
                        item_bidiLevel = 0 \<rparr> \<rparr> \<rparr>"

section \<open>Key comparison\<close>

lemma sint_diff_eq_0: "sint (a - b :: 32 word) = 0 \<longleftrightarrow> a = b"
  by (metis right_minus_eq signed_eq_0_iff)





section \<open>Vectors\<close>

lemma items_Vector_add [simp]: "items (Vector_add pol x v) = items v @ [x]"
  by (simp add: Vector_add_def)

lemma items_Vector_replaceAt [simp]: "items (Vector_replaceAt x i v) = (items v)[i := x]"
  by (simp add: Vector_replaceAt_def)

lemma items_Vector_clear [simp]: "items (Vector_clear pol v) = []"
  by (simp add: Vector_clear_def)

lemma items_Vector_setCapacity [simp]: "items (Vector_setCapacity pol n v) = items v"
  by (simp add: Vector_setCapacity_def)

lemma items_Vector_empty [simp]: "items Vector_empty = []"
  by (simp add: Vector_empty_def)

lemma items_add_zeros [simp]: "items (add_zeros pol n v) = items v @ replicate n 0"
proof (induction n arbitrary: v)
  case 0
  then show ?case by simp
next
  case (Suc n)
  then show ?case by (simp add: replicate_app_Cons_same)
qed

lemma TextLayoutValue_new_items [simp]:
  "items (mAdvances (TextLayoutValue_new e obj ctx)) = []"
  "items (mGlyphs (TextLayoutValue_new e obj ctx)) = []"
  "items (mPos (TextLayoutValue_new e obj ctx)) = []"
  "mTotalAdvance (TextLayoutValue_new e obj ctx) = 0"
  by (simp_all add: TextLayoutValue_new_def)

section \<open>The advances of a run\<close>







section \<open>The advances of a request\<close>






lemma computeValues_paths:
  assumes "computeValues e paint chars st cnt ctx dir sh v0 = Some (sh', v)"
  shows "(cnt = 0 \<and> sh' = sh \<and> v = v0 \<lparr> mTotalAdvance := 0 \<rparr>) \<or>
         (cnt \<noteq> 0 \<and> (\<exists>isRTL. computeRunValues e paint (drop (unat st) chars) cnt isRTL sh
                         (v0 \<lparr> mTotalAdvance := 0 \<rparr>) = Some (sh', v))) \<or>
         (cnt \<noteq> 0 \<and> dir \<noteq> kBidi_Force_LTR \<and> dir \<noteq> kBidi_Force_RTL \<and> ubidi_open e \<and>
          (\<exists>req bidi shm vm isRTL single.
            ubidi_setPara e chars (unat ctx) req = Some bidi \<and>
            ubidi_countRuns_success bidi \<and> 2 \<le> ubidi_countRuns bidi \<and>
            bidiRunLoop e paint chars st (sint (st + cnt)) bidi [0..<nat (ubidi_countRuns bidi)]
              (sh, v0 \<lparr> mTotalAdvance := 0 \<rparr>, False, False) = Some (shm, vm, isRTL, single) \<and>
            (if single
             then computeRunValues e paint (drop (unat st) chars) cnt isRTL shm vm = Some (sh', v)
             else sh' = shm \<and> v = vm)))"
proof (cases "cnt = 0")
  case True
  with assms show ?thesis by (simp add: computeValues_def Let_def)
next
  case False
  show ?thesis
  proof (cases "dir = kBidi_Force_LTR \<or> dir = kBidi_Force_RTL")
    case True
    with assms False show ?thesis by (auto simp add: computeValues_def Let_def)
  next
    case notforced: False
    show ?thesis
    proof (cases "ubidi_open e")
      case False
      with assms \<open>cnt \<noteq> 0\<close> notforced show ?thesis
        by (auto simp add: computeValues_def Let_def)
    next
      case True
      let ?req = "(if dir = kBidi_LTR then 0
                        else if dir = kBidi_RTL then 1
                        else if dir = kBidi_Default_LTR then UBIDI_DEFAULT_LTR
                        else if dir = kBidi_Default_RTL then UBIDI_DEFAULT_RTL
                        else (0 :: 8 word))"
      show ?thesis
      proof (cases "ubidi_setPara e chars (unat ctx) ?req")
        case None
        from assms \<open>cnt \<noteq> 0\<close> notforced True None
        have "computeRunValues e paint (drop (unat st) chars) cnt (fallback_isRTL ?req) sh
                (v0 \<lparr> mTotalAdvance := 0 \<rparr>) = Some (sh', v)"
          by (simp add: computeValues_def Let_def)
        with \<open>cnt \<noteq> 0\<close> show ?thesis by blast
      next
        case (Some bidi)
        let ?single = "computeRunValues e paint (drop (unat st) chars) cnt
                ((ubidi_getParaLevel bidi AND kDirection_Mask) = 1) sh (v0 \<lparr> mTotalAdvance := 0 \<rparr>)"
        show ?thesis
        proof (cases "ubidi_countRuns_success bidi \<and> ubidi_countRuns bidi = 1")
          case one: True
          from assms \<open>cnt \<noteq> 0\<close> notforced True Some one
          have "?single = Some (sh', v)"
            by (simp add: computeValues_def Let_def)
          with \<open>cnt \<noteq> 0\<close> show ?thesis by blast
        next
          case notone: False
          show ?thesis
          proof (cases "\<not> ubidi_countRuns_success bidi \<or> ubidi_countRuns bidi < 1")
            case bad: True
            from assms \<open>cnt \<noteq> 0\<close> notforced True Some notone bad
            have "?single = Some (sh', v)"
              by (simp add: computeValues_def Let_def)
            with \<open>cnt \<noteq> 0\<close> show ?thesis by blast
          next
            case notbad: False
            from notone notbad have multi: "ubidi_countRuns_success bidi" "2 \<le> ubidi_countRuns bidi"
              by auto
            from assms \<open>cnt \<noteq> 0\<close> notforced True Some notone notbad
            have eq: "(case bidiRunLoop e paint chars st (sint (st + cnt)) bidi
                         [0..<nat (ubidi_countRuns bidi)] (sh, v0 \<lparr> mTotalAdvance := 0 \<rparr>, False, False) of
                       None \<Rightarrow> None
                     | Some (shm, vm, isRTL, single) \<Rightarrow>
                         if single then computeRunValues e paint (drop (unat st) chars) cnt isRTL shm vm
                         else Some (shm, vm)) = Some (sh', v)"
              by (simp add: computeValues_def Let_def)
            then obtain shm vm isRTL single where
              loop: "bidiRunLoop e paint chars st (sint (st + cnt)) bidi [0..<nat (ubidi_countRuns bidi)]
                (sh, v0 \<lparr> mTotalAdvance := 0 \<rparr>, False, False) = Some (shm, vm, isRTL, single)"
              and fin: "(if single
               then computeRunValues e paint (drop (unat st) chars) cnt isRTL shm vm = Some (sh', v)
               else sh' = shm \<and> v = vm)"
              by (auto split: option.splits if_splits)
            show ?thesis
              using \<open>cnt \<noteq> 0\<close> notforced True Some multi loop fin by blast
          qed
        qed
      qed
    qed
  qed
qed




section \<open>The shaper keeps its string\<close>

lemma prepareShaping_string [simp]:
  "stringLength (mShaperItem (prepareShaping sz sh)) = stringLength (mShaperItem sh)"
  "shaper_string (mShaperItem (prepareShaping sz sh)) = shaper_string (mShaperItem sh)"
  by (simp_all add: prepareShaping_def Let_def createShaperItemGlyphArrays_def
      deleteShaperItemGlyphArrays_def)

lemma doShaping_string [simp]:
  "stringLength (mShaperItem (snd (doShaping e sz sh))) = stringLength (mShaperItem sh)"
  "shaper_string (mShaperItem (snd (doShaping e sz sh))) = shaper_string (mShaperItem sh)"
  by (simp_all add: doShaping_def Let_def)


lemma getCachedHBFace_string [simp]:
  "stringLength (mShaperItem (snd (getCachedHBFace e tf sh))) = stringLength (mShaperItem sh)"
  "shaper_string (mShaperItem (snd (getCachedHBFace e tf sh))) = shaper_string (mShaperItem sh)"
  "item (mShaperItem (snd (getCachedHBFace e tf sh))) = item (mShaperItem sh)"
  "mShaperItemGlyphArraySize (snd (getCachedHBFace e tf sh)) = mShaperItemGlyphArraySize sh"
  by (simp_all add: getCachedHBFace_def Let_def split: option.splits)

lemma shapeFontRun_setup_keeps [simp]:
  "stringLength (mShaperItem (snd (shapeFontRun_setup e paint isRTL sh))) = stringLength (mShaperItem sh)"
  "shaper_string (mShaperItem (snd (shapeFontRun_setup e paint isRTL sh))) = shaper_string (mShaperItem sh)"
  "item_length (item (mShaperItem (snd (shapeFontRun_setup e paint isRTL sh))))
     = item_length (item (mShaperItem sh))"
  "mShaperItemGlyphArraySize (snd (shapeFontRun_setup e paint isRTL sh)) = mShaperItemGlyphArraySize sh"
  by (simp_all add: shapeFontRun_setup_def Let_def)

lemma shapeFontRun_Some:
  assumes "shapeFontRun e paint isRTL sh = Some s"
  shows "shapingLoop e (firstShapingSize (mShaperItem (snd (shapeFontRun_setup e paint isRTL sh))))
           (snd (shapeFontRun_setup e paint isRTL sh)) = Some (snd s)"
    and "fst s = fst (shapeFontRun_setup e paint isRTL sh)"
  using assms by (auto simp add: shapeFontRun_def Let_def)


section \<open>Total advance of a single run\<close>










section \<open>The glyph arrays\<close>

lemma prepareShaping_size:
  "mShaperItemGlyphArraySize (prepareShaping sz sh) = max sz (mShaperItemGlyphArraySize sh)"
  "num_glyphs (mShaperItem (prepareShaping sz sh)) = max sz (mShaperItemGlyphArraySize sh)"
  "offsets (mShaperItem (prepareShaping sz sh))
     = replicate (unat (max sz (mShaperItemGlyphArraySize sh))) (0, 0)"
  by (auto simp add: prepareShaping_def Let_def createShaperItemGlyphArrays_def
      deleteShaperItemGlyphArrays_def max_def)

lemma prepareShaping_realloc:
  assumes "mShaperItemGlyphArraySize sh < sz"
  shows "length (glyphs (mShaperItem (prepareShaping sz sh))) = unat sz"
    and "length (attributes (mShaperItem (prepareShaping sz sh))) = unat sz"
    and "length (advances (mShaperItem (prepareShaping sz sh))) = unat sz"
    and "length (offsets (mShaperItem (prepareShaping sz sh))) = unat sz"
    and "length (log_clusters (mShaperItem (prepareShaping sz sh))) = unat sz"
    and "\<not> arrays_null (mShaperItem (prepareShaping sz sh))"
  using assms
  by (simp_all add: prepareShaping_def Let_def createShaperItemGlyphArrays_def
      deleteShaperItemGlyphArrays_def)

lemma doShaping_size [simp]:
  "mShaperItemGlyphArraySize (snd (doShaping e sz sh)) = max sz (mShaperItemGlyphArraySize sh)"
  by (simp add: doShaping_def Let_def prepareShaping_size)

lemma doShaping_result:
  "fst (doShaping e sz sh) = res_ok (HB_ShapeItem e (shapeRequest (prepareShaping sz sh)))"
  "num_glyphs (mShaperItem (snd (doShaping e sz sh)))
     = res_num_glyphs (HB_ShapeItem e (shapeRequest (prepareShaping sz sh)))"
  by (simp_all add: doShaping_def Let_def)

lemma shapeRequest_prepareShaping:
  "shapeRequest (prepareShaping sz sh)
     = (shapeRequest sh) \<lparr> req_num_glyphs := max sz (mShaperItemGlyphArraySize sh) \<rparr>"
  by (auto simp add: shapeRequest_def prepareShaping_def Let_def createShaperItemGlyphArrays_def
      deleteShaperItemGlyphArrays_def max_def)

lemma shapeRequest_doShaping:
  "shapeRequest (snd (doShaping e sz sh))
     = (shapeRequest sh) \<lparr> req_num_glyphs := num_glyphs (mShaperItem (snd (doShaping e sz sh))) \<rparr>"
  by (simp add: doShaping_def Let_def shapeRequest_def prepareShaping_def
      createShaperItemGlyphArrays_def deleteShaperItemGlyphArrays_def)

text \<open>
  A failed attempt under the shaper's contract: the count it asks for exceeds the array
  size, twice the count is a larger size still, and the attempt with twice the count
  succeeds.
\<close>

lemma doShaping_retry:
  assumes c: "shaper_contract e" and fail: "\<not> fst (doShaping e sz sh)"
  defines "sh1 \<equiv> snd (doShaping e sz sh)"
  defines "R \<equiv> num_glyphs (mShaperItem sh1)"
  shows "mShaperItemGlyphArraySize sh1 < R"
    and "unat (R * 2) = 2 * unat R"
    and "mShaperItemGlyphArraySize sh1 < R * 2"
    and "fst (doShaping e (R * 2) sh1)"
proof -
  let ?r = "shapeRequest (prepareShaping sz sh)"
  have nok: "\<not> res_ok (HB_ShapeItem e ?r)" using fail by (simp add: doShaping_result)
  have R: "R = res_num_glyphs (HB_ShapeItem e ?r)" by (simp add: R_def sh1_def doShaping_result)
  from c nok have lt: "req_num_glyphs ?r < R"
    and nov: "unat R * 2 < 2 ^ 32"
    and again: "\<forall>c. R \<le> c \<longrightarrow> res_ok (HB_ShapeItem e (?r \<lparr> req_num_glyphs := c \<rparr>))"
    unfolding shaper_contract_def R by blast+
  have cap: "req_num_glyphs ?r = mShaperItemGlyphArraySize sh1"
    by (simp add: shapeRequest_prepareShaping sh1_def)
  show a: "mShaperItemGlyphArraySize sh1 < R" using lt cap by simp
  show b: "unat (R * 2) = 2 * unat R" using nov by (simp add: unat_word_ariths)
  have "unat R \<le> unat (R * 2)" using b by simp
  then have le: "R \<le> R * 2" by (simp add: word_le_nat_alt)
  show d: "mShaperItemGlyphArraySize sh1 < R * 2" using a le by simp
  have "shapeRequest (prepareShaping (R * 2) sh1) = ?r \<lparr> req_num_glyphs := R * 2 \<rparr>"
    using d by (simp add: shapeRequest_prepareShaping sh1_def shapeRequest_doShaping max_def)
  then show "fst (doShaping e (R * 2) sh1)"
    using again le by (simp add: doShaping_result)
qed

lemma shapingLoop_ok:
  "fst (doShaping e sz sh) \<Longrightarrow> shapingLoop e sz sh = Some (snd (doShaping e sz sh))"
  by (subst shapingLoop.simps) (simp add: case_prod_beta)

lemma shapingLoop_retry:
  "\<not> fst (doShaping e sz sh) \<Longrightarrow>
   shapingLoop e sz sh =
     shapingLoop e (num_glyphs (mShaperItem (snd (doShaping e sz sh))) * 2) (snd (doShaping e sz sh))"
  by (subst shapingLoop.simps) (simp add: case_prod_beta)

lemma shapingLoop_terminates:
  assumes c: "shaper_contract e"
  shows "\<exists>sh'. shapingLoop e sz sh = Some sh' \<and>
               mShaperItemGlyphArraySize sh \<le> mShaperItemGlyphArraySize sh'"
proof (cases "fst (doShaping e sz sh)")
  case True
  then show ?thesis by (simp add: shapingLoop_ok)
next
  case False
  let ?sh1 = "snd (doShaping e sz sh)"
  let ?R = "num_glyphs (mShaperItem ?sh1)"
  from doShaping_retry [OF c False] have ok: "fst (doShaping e (?R * 2) ?sh1)" by simp
  have "shapingLoop e sz sh = Some (snd (doShaping e (?R * 2) ?sh1))"
    using False ok by (simp add: shapingLoop_retry shapingLoop_ok)
  moreover have "mShaperItemGlyphArraySize sh \<le> mShaperItemGlyphArraySize (snd (doShaping e (?R * 2) ?sh1))"
    by (simp add: max.coboundedI2)
  ultimately show ?thesis by simp
qed

lemma shapingLoop_size_mono:
  assumes "shapingLoop e sz sh = Some sh'"
  shows "mShaperItemGlyphArraySize sh \<le> mShaperItemGlyphArraySize sh'"
proof (rule shapingLoop.raw_induct
    [where P = "\<lambda>e sz sh sh'. mShaperItemGlyphArraySize sh \<le> mShaperItemGlyphArraySize sh'",
     OF _ assms])
  fix loop :: "env \<Rightarrow> size_t \<Rightarrow> TextLayoutShaper \<Rightarrow> TextLayoutShaper option"
    and e :: env and sz sh sh'
  assume IH: "\<And>e sz sh sh'. loop e sz sh = Some sh' \<Longrightarrow>
      mShaperItemGlyphArraySize sh \<le> mShaperItemGlyphArraySize sh'"
  assume body: "(case doShaping e sz sh of
        (ok, sh1) \<Rightarrow> if ok then Some sh1 else loop e (num_glyphs (mShaperItem sh1) * 2) sh1) = Some sh'"
  show "mShaperItemGlyphArraySize sh \<le> mShaperItemGlyphArraySize sh'"
  proof (cases "fst (doShaping e sz sh)")
    case True
    with body have "sh' = snd (doShaping e sz sh)" by (simp add: case_prod_beta)
    then show ?thesis by simp
  next
    case False
    with body have "loop e (num_glyphs (mShaperItem (snd (doShaping e sz sh))) * 2)
        (snd (doShaping e sz sh)) = Some sh'"
      by (simp add: case_prod_beta)
    from IH [OF this] have "max sz (mShaperItemGlyphArraySize sh) \<le> mShaperItemGlyphArraySize sh'"
      by simp
    then show ?thesis by simp
  qed
qed

lemma shapeFontRun_size_mono:
  assumes "shapeFontRun e paint isRTL sh = Some s"
  shows "mShaperItemGlyphArraySize sh \<le> mShaperItemGlyphArraySize (snd s)"
  using shapingLoop_size_mono [OF shapeFontRun_Some(1) [OF assms]] by simp

lemma shapeFontRun_terminates:
  assumes "shaper_contract e"
  shows "\<exists>s. shapeFontRun e paint isRTL sh = Some s"
  using shapingLoop_terminates [OF assms,
      of "firstShapingSize (mShaperItem (snd (shapeFontRun_setup e paint isRTL sh)))"
         "snd (shapeFontRun_setup e paint isRTL sh)"]
  by (auto simp add: shapeFontRun_def Let_def)

lemma scriptRunLoop_size_mono:
  assumes "scriptRunLoop e paint isRTL sh idx t v = Some r"
  shows "mShaperItemGlyphArraySize sh \<le> mShaperItemGlyphArraySize (fst r)"
proof (rule scriptRunLoop.raw_induct
    [where P = "\<lambda>e paint isRTL sh idx t v r.
       mShaperItemGlyphArraySize sh \<le> mShaperItemGlyphArraySize (fst r)", OF _ assms])
  fix loop :: "env \<Rightarrow> SkPaint \<Rightarrow> bool \<Rightarrow> TextLayoutShaper \<Rightarrow> int \<Rightarrow> jfloat \<Rightarrow> TextLayoutValue
      \<Rightarrow> (TextLayoutShaper \<times> jfloat \<times> TextLayoutValue) option"
    and e :: env and paint isRTL sh idx t and v :: TextLayoutValue and r
  assume IH: "\<And>e paint isRTL sh idx t v r. loop e paint isRTL sh idx t v = Some r \<Longrightarrow>
      mShaperItemGlyphArraySize sh \<le> mShaperItemGlyphArraySize (fst r)"
  assume body: "(case (if isRTL then hb_utf16_script_run_prev e else hb_utf16_script_run_next e)
             (shaper_string (mShaperItem sh)) (unat (stringLength (mShaperItem sh))) idx of
        None \<Rightarrow> Some (sh, t, v)
      | Some nxt \<Rightarrow>
          Option.bind
            (shapeFontRun e paint isRTL (sh \<lparr> mShaperItem := (mShaperItem sh) \<lparr> item := fst nxt \<rparr> \<rparr>))
            (\<lambda>s. let p = processScriptRun e isRTL (getTextSkewX paint) (fst s)
                             (nat (ssize_t_of (item_pos (fst nxt)))) (unat (item_length (fst nxt)))
                             (mShaperItem (snd s)) (t, v)
                 in loop e paint isRTL (snd s) (snd nxt) (fst p) (snd p))) = Some r"
  show "mShaperItemGlyphArraySize sh \<le> mShaperItemGlyphArraySize (fst r)"
  proof (cases "(if isRTL then hb_utf16_script_run_prev e else hb_utf16_script_run_next e)
                  (shaper_string (mShaperItem sh)) (unat (stringLength (mShaperItem sh))) idx")
    case None
    with body show ?thesis by auto
  next
    case (Some nxt)
    with body obtain s p where
      sfr: "shapeFontRun e paint isRTL (sh \<lparr> mShaperItem := (mShaperItem sh) \<lparr> item := fst nxt \<rparr> \<rparr>) = Some s"
      and rec: "loop e paint isRTL (snd s) (snd nxt) (fst p) (snd p) = Some r"
      by (auto simp add: Let_def split: Option.bind_splits)
    from shapeFontRun_size_mono [OF sfr] IH [OF rec] show ?thesis by simp
  qed
qed

lemma computeRunValues_size_mono:
  assumes "computeRunValues e paint chars cnt isRTL sh v = Some (sh', v')"
  shows "mShaperItemGlyphArraySize sh \<le> mShaperItemGlyphArraySize sh'"
proof (cases "cnt = 0")
  case True
  with assms show ?thesis by (simp add: computeRunValues_def)
next
  case False
  with assms obtain sh1 idx t v1 r where
    loop: "scriptRunLoop e paint isRTL sh1 idx t v1 = Some r"
    and s1: "mShaperItemGlyphArraySize sh1 = mShaperItemGlyphArraySize sh"
    and r: "sh' = fst r"
    by (auto simp add: computeRunValues_def Let_def case_prod_beta)
  from scriptRunLoop_size_mono [OF loop] s1 r show ?thesis by simp
qed

text \<open>One round of the loop over the visual runs, by cases.\<close>

lemma bidiRunLoop_Cons:
  assumes "bidiRunLoop e paint chars st endW bidi (i # rest) (sh, v, isRTL, single) = Some res"
  shows "(res = (sh,
                 v \<lparr> mGlyphs := Vector_clear (Vector_capacity_policy e) (mGlyphs v),
                     mAdvances := Vector_clear (Vector_capacity_policy e) (mAdvances v),
                     mPos := Vector_clear (Vector_capacity_policy e) (mPos v),
                     mTotalAdvance := 0 \<rparr>,
                 (ubidi_getParaLevel bidi AND kDirection_Mask) = 1, True)) \<or>
         bidiRunLoop e paint chars st endW bidi rest (sh, v, isRTL, single) = Some res \<or>
         (\<exists>cs c r sh1 v1. computeRunValues e paint cs c r sh v = Some (sh1, v1) \<and>
            bidiRunLoop e paint chars st endW bidi rest (sh1, v1, r, single) = Some res)"
proof -
  obtain runDir s l where run: "ubidi_getVisualRun bidi i = (runDir, s, l)"
    by (cases "ubidi_getVisualRun bidi i") auto
  show ?thesis
  proof (cases "s = - 1 \<or> l = - 1")
    case True
    with assms run show ?thesis by auto
  next
    case valid: False
    show ?thesis
    proof (cases "endW \<le> s")
      case True
      with assms run valid show ?thesis by simp
    next
      case nr: False
      show ?thesis
      proof (cases "s + l \<le> sint st")
        case True
        with assms run valid nr show ?thesis by simp
      next
        case nl: False
        let ?cs = "drop (nat (if s < sint st then sint st else s)) chars"
        let ?c = "word_of_int ((if endW < s + l then endW else s + l)
                     - (if s < sint st then sint st else s)) :: 32 word"
        from assms run valid nr nl
        have eq: "(case computeRunValues e paint ?cs ?c (runDir = UBIDI_RTL) sh v of
                  None \<Rightarrow> None
                | Some (sh1, v1) \<Rightarrow>
                    bidiRunLoop e paint chars st endW bidi rest (sh1, v1, runDir = UBIDI_RTL, single))
               = Some res"
          by (simp add: Let_def)
        then obtain sh1 v1 where
          "computeRunValues e paint ?cs ?c (runDir = UBIDI_RTL) sh v = Some (sh1, v1)"
          "bidiRunLoop e paint chars st endW bidi rest (sh1, v1, runDir = UBIDI_RTL, single) = Some res"
          by (cases "computeRunValues e paint ?cs ?c (runDir = UBIDI_RTL) sh v") auto
        then show ?thesis by blast
      qed
    qed
  qed
qed

lemma bidiRunLoop_size_mono:
  assumes "bidiRunLoop e paint chars st endW bidi ixs (sh, v, isRTL, single) = Some res"
  shows "mShaperItemGlyphArraySize sh \<le> mShaperItemGlyphArraySize (fst res)"
  using assms
proof (induction ixs arbitrary: sh v isRTL single)
  case Nil
  then show ?case by auto
next
  case (Cons i rest)
  from bidiRunLoop_Cons [OF Cons.prems]
  consider (invalid) "fst res = sh"
    | (skip) "bidiRunLoop e paint chars st endW bidi rest (sh, v, isRTL, single) = Some res"
    | (shape) cs c r sh1 v1 where "computeRunValues e paint cs c r sh v = Some (sh1, v1)"
        "bidiRunLoop e paint chars st endW bidi rest (sh1, v1, r, single) = Some res"
    by auto
  then show ?case
  proof cases
    case invalid
    then show ?thesis by simp
  next
    case skip
    from Cons.IH [OF this] show ?thesis .
  next
    case shape
    from computeRunValues_size_mono [OF shape(1)] Cons.IH [OF shape(2)] show ?thesis by simp
  qed
qed

lemma computeValues_size_mono:
  assumes "computeValues e paint chars st cnt ctx dir sh v0 = Some (sh', v)"
  shows "mShaperItemGlyphArraySize sh \<le> mShaperItemGlyphArraySize sh'"
proof -
  from computeValues_paths [OF assms]
  consider (zero) "sh' = sh"
    | (one) cs isRTL v1 where "computeRunValues e paint cs cnt isRTL sh v1 = Some (sh', v)"
    | (multi) bidi shm vm v1 ixs isRTL single where
        "bidiRunLoop e paint chars st (sint (st + cnt)) bidi ixs (sh, v1, False, False) = Some (shm, vm, isRTL, single)"
        "if single
         then computeRunValues e paint (drop (unat st) chars) cnt isRTL shm vm = Some (sh', v)
         else sh' = shm \<and> v = vm"
    by blast
  then show ?thesis
  proof cases
    case zero
    then show ?thesis by simp
  next
    case one
    from computeRunValues_size_mono [OF one] show ?thesis .
  next
    case multi
    from bidiRunLoop_size_mono [OF multi(1)]
    have a: "mShaperItemGlyphArraySize sh \<le> mShaperItemGlyphArraySize shm" by simp
    show ?thesis
    proof (cases single)
      case True
      with multi(2) have "computeRunValues e paint (drop (unat st) chars) cnt isRTL shm vm = Some (sh', v)"
        by simp
      from computeRunValues_size_mono [OF this] a show ?thesis by simp
    next
      case False
      with multi(2) a show ?thesis by simp
    qed
  qed
qed

section \<open>Termination of the shaping pipeline\<close>








section \<open>The byte budget of the cache\<close>

lemma find_Some_set: "find P xs = Some x \<Longrightarrow> x \<in> set xs \<and> P x"
  by (induction xs) (auto split: if_splits)

lemma find_None_drop: "find P xs = None \<Longrightarrow> find P (drop n xs) = None"
  by (auto simp add: find_None_iff dest: in_set_dropD)



lemma GenerationCache_get_miss:
  "fst (GenerationCache_get c key) = None \<Longrightarrow>
   snd (GenerationCache_get c key) = c \<and> find (\<lambda>kv. compare (fst kv) key = 0) c = None"
  by (cases "find (\<lambda>kv. compare (fst kv) key = 0) c") (simp_all add: GenerationCache_get_def)

lemma GenerationCache_get_hit:
  "fst (GenerationCache_get c key) = Some v \<Longrightarrow>
   \<exists>kv. find (\<lambda>kv. compare (fst kv) key = 0) c = Some kv \<and> snd kv = v \<and> kv \<in> set c \<and>
        compare (fst kv) key = 0 \<and> snd (GenerationCache_get c key) = remove1 kv c @ [kv]"
  by (cases "find (\<lambda>kv. compare (fst kv) key = 0) c")
     (auto simp add: GenerationCache_get_def dest: find_Some_set)





text \<open>The paths of \<open>getValue\<close>: a hit, a miss whose computation never returns, and a miss.\<close>

lemma getValue_hit:
  assumes "fst (GenerationCache_get (mCache c) (TextLayoutCacheKey_new paint chars st cnt ctx dir)) = Some v"
  shows "getValue e c paint chars st cnt ctx dir =
           Some (Inr (Some v, c \<lparr> mCache := snd (GenerationCache_get (mCache c)
                                      (TextLayoutCacheKey_new paint chars st cnt ctx dir)) \<rparr>))"
  using assms by (simp add: getValue_def Let_def)

lemma getValue_miss_None:
  assumes "fst (GenerationCache_get (mCache c) (TextLayoutCacheKey_new paint chars st cnt ctx dir)) = None"
    and "computeValues e paint (getText (TextLayoutCacheKey_new paint chars st cnt ctx dir)) st cnt ctx dir
           (mShaper c) (TextLayoutValue_new e (mNextObject c) ctx) = None"
  shows "getValue e c paint chars st cnt ctx dir = None"
  using assms by (simp add: getValue_def Let_def)

lemma getValue_miss:
  assumes miss: "fst (GenerationCache_get (mCache c) (TextLayoutCacheKey_new paint chars st cnt ctx dir)) = None"
    and comp: "computeValues e paint (getText (TextLayoutCacheKey_new paint chars st cnt ctx dir)) st cnt ctx dir
           (mShaper c) (TextLayoutValue_new e (mNextObject c) ctx) = Some (sh, v)"
  shows "getValue e c paint chars st cnt ctx dir =
     (if entry_size e (TextLayoutCacheKey_new paint chars st cnt ctx dir, v) \<le> mMaxSize c
      then (case evictLoop e (entry_size e (TextLayoutCacheKey_new paint chars st cnt ctx dir, v))
                   (c \<lparr> mShaper := sh, mNextObject := Suc (mNextObject c) \<rparr>) of
              Inl f \<Rightarrow> Some (Inl f)
            | Inr c2 \<Rightarrow>
                (if \<not> fst (GenerationCache_put (mCache c2)
                              (TextLayoutCacheKey_new paint chars st cnt ctx dir) v)
                 then Some (Inl Fatal_put)
                 else Some (Inr (Some v,
                   c2 \<lparr> mSize := mSize c2
                           + entry_size e (TextLayoutCacheKey_new paint chars st cnt ctx dir, v),
                        mCache := snd (GenerationCache_put (mCache c2)
                              (TextLayoutCacheKey_new paint chars st cnt ctx dir) v) \<rparr>))))
      else Some (Inr (Some v, c \<lparr> mShaper := sh, mNextObject := Suc (mNextObject c) \<rparr>)))"
proof -
  have same: "snd (GenerationCache_get (mCache c) (TextLayoutCacheKey_new paint chars st cnt ctx dir))
      = mCache c"
    using GenerationCache_get_miss [OF miss] by simp
  have c1: "c \<lparr> mCache := mCache c, mShaper := sh, mNextObject := Suc (mNextObject c) \<rparr>
      = c \<lparr> mShaper := sh, mNextObject := Suc (mNextObject c) \<rparr>" by simp
  show ?thesis
    using miss comp
    by (simp add: getValue_def Let_def same c1 entry_size_def split: sum.splits)
qed


lemma compare_0_counts:
  assumes "compare l r = 0"
  shows "start l = start r \<and> count l = count r \<and> contextCount l = contextCount r"
proof -
  have a: "start l = start r"
    using assms by (cases "start l = start r") (simp_all add: compare_def sint_diff_eq_0)
  have b: "count l = count r"
    using assms a by (cases "count l = count r") (simp_all add: compare_def sint_diff_eq_0)
  have c: "contextCount l = contextCount r"
    using assms a b
    by (cases "contextCount l = contextCount r") (simp_all add: compare_def sint_diff_eq_0)
  show ?thesis using a b c by simp
qed





section \<open>Hits of the cache\<close>



lemma evictLoop_drop:
  "evictLoop e sz c = Inr c' \<Longrightarrow>
   \<exists>n. mCache c' = drop n (mCache c) \<and> mShaper c' = mShaper c \<and> mNextObject c' = mNextObject c"
proof (induction e sz c rule: evictLoop.induct)
  case (1 e sz c)
  show ?case
  proof (cases "mMaxSize c < mSize c + sz")
    case False
    with "1.prems" have "c' = c" by (subst (asm) evictLoop.simps) simp
    then have "mCache c' = drop 0 (mCache c)" by simp
    then show ?thesis using \<open>c' = c\<close> by blast
  next
    case True
    show ?thesis
    proof (cases "fst (removeOldest e c)")
      case False
      with True "1.prems" show ?thesis by (subst (asm) evictLoop.simps) simp
    next
      case ro: True
      with True "1.prems" have "evictLoop e sz (snd (removeOldest e c)) = Inr c'"
        by (subst (asm) evictLoop.simps) simp
      from "1.IH" [OF True _ this] ro obtain n where
        n: "mCache c' = drop n (mCache (snd (removeOldest e c)))"
           "mShaper c' = mShaper (snd (removeOldest e c))"
           "mNextObject c' = mNextObject (snd (removeOldest e c))" by auto
      from ro obtain kv rest where cache: "mCache c = kv # rest"
        by (cases "mCache c") (auto simp add: removeOldest_def)
      have "mCache c' = drop (Suc n) (mCache c)"
        using n(1) by (simp add: removeOldest_def cache entryRemoved_def)
      moreover have "mShaper c' = mShaper c" "mNextObject c' = mNextObject c"
        using n(2,3) by (simp_all add: removeOldest_def cache entryRemoved_def)
      ultimately show ?thesis by blast
    qed
  qed
qed

text \<open>
  What a returning \<open>getValue\<close> does to the cache: a hit moves the entry found to the
  young end and touches nothing else; a miss computes the value and either leaves the
  entries alone or drops some of the oldest and appends the new entry.
\<close>

lemma getValue_shape:
  assumes call: "getValue e c paint chars st cnt ctx dir = Some (Inr (r, c'))"
  shows "(\<exists>kv. find (\<lambda>kv. compare (fst kv) (TextLayoutCacheKey_new paint chars st cnt ctx dir) = 0)
                (mCache c) = Some kv \<and>
              r = Some (snd kv) \<and> c' = c \<lparr> mCache := remove1 kv (mCache c) @ [kv] \<rparr>) \<or>
         (find (\<lambda>kv. compare (fst kv) (TextLayoutCacheKey_new paint chars st cnt ctx dir) = 0)
                (mCache c) = None \<and>
          (\<exists>v. computeValues e paint (getText (TextLayoutCacheKey_new paint chars st cnt ctx dir))
                  st cnt ctx dir (mShaper c) (TextLayoutValue_new e (mNextObject c) ctx)
                  = Some (mShaper c', v) \<and>
               r = Some v \<and> mNextObject c' = Suc (mNextObject c) \<and>
               (mCache c' = mCache c \<or>
                (\<exists>n. mCache c' = drop n (mCache c)
                        @ [(TextLayoutCacheKey_new paint chars st cnt ctx dir, v)]))))"
proof -
  let ?key = "TextLayoutCacheKey_new paint chars st cnt ctx dir"
  show ?thesis
  proof (cases "fst (GenerationCache_get (mCache c) ?key)")
    case (Some v)
    from GenerationCache_get_hit [OF Some] obtain kv where
      kv: "find (\<lambda>kv. compare (fst kv) ?key = 0) (mCache c) = Some kv" "snd kv = v"
          "snd (GenerationCache_get (mCache c) ?key) = remove1 kv (mCache c) @ [kv]" by blast
    from getValue_hit [OF Some, of e] call kv show ?thesis by simp
  next
    case None
    note nf = GenerationCache_get_miss [OF None]
    from call obtain sh v where comp:
      "computeValues e paint (getText ?key) st cnt ctx dir (mShaper c)
         (TextLayoutValue_new e (mNextObject c) ctx) = Some (sh, v)"
      using getValue_miss_None [OF None, of e]
      by (cases "computeValues e paint (getText ?key) st cnt ctx dir (mShaper c)
         (TextLayoutValue_new e (mNextObject c) ctx)") auto
    let ?c1 = "c \<lparr> mShaper := sh, mNextObject := Suc (mNextObject c) \<rparr>"
    note gv = getValue_miss [OF None comp]
    show ?thesis
    proof (cases "entry_size e (?key, v) \<le> mMaxSize c")
      case False
      with gv call have "r = Some v" "c' = ?c1" by simp_all
      then show ?thesis using nf comp by simp
    next
      case True
      with gv call obtain c2 where
        ev: "evictLoop e (entry_size e (?key, v)) ?c1 = Inr c2"
        by (cases "evictLoop e (entry_size e (?key, v)) ?c1") auto
      from evictLoop_drop [OF ev] obtain n where
        n: "mCache c2 = drop n (mCache c)" "mShaper c2 = sh"
           "mNextObject c2 = Suc (mNextObject c)" by auto
      have "find (\<lambda>kv. compare (fst kv) ?key = 0) (mCache c2) = None"
        using nf n(1) by (simp add: find_None_drop)
      then have put: "GenerationCache_put (mCache c2) ?key v = (True, mCache c2 @ [(?key, v)])"
        by (simp add: GenerationCache_put_def)
      from gv call True ev put have
        "r = Some v" "c' = c2 \<lparr> mSize := mSize c2 + entry_size e (?key, v),
                              mCache := mCache c2 @ [(?key, v)] \<rparr>" by simp_all
      then show ?thesis using nf comp n by auto
    qed
  qed
qed





lemma in_set_remove1_D: "x \<in> set (remove1 y xs) \<Longrightarrow> x \<in> set xs"
  by (metis notin_set_remove1)


text \<open>
  C9. A request with \<open>count == 0\<close> gets a layout with a total advance of 0 and no
  glyphs, no positions and no advances at all, whether \<open>getValue\<close> computes it or finds
  it in a cache whose entries for empty windows are of that kind; and \<open>getValue\<close> keeps
  the cache so.
\<close>

theorem empty_count_layout:
  assumes ok: "cache_values_ok c"
    and call: "getValue e c paint chars st cnt ctx dir = Some (Inr (r, c'))"
  shows "cache_values_ok c' \<and>
         (cnt = 0 \<longrightarrow>
            (\<exists>v. r = Some v \<and> mTotalAdvance v = 0 \<and> items (mGlyphs v) = [] \<and>
                 items (mPos v) = [] \<and> items (mAdvances v) = []))"
proof -
  let ?key = "TextLayoutCacheKey_new paint chars st cnt ctx dir"
  let ?P = "\<lambda>kv :: TextLayoutCacheKey \<times> TextLayoutValue. count (fst kv) \<noteq> 0 \<or> empty_layout (snd kv)"
  have all: "list_all ?P (mCache c)" using ok by (simp add: cache_values_ok_def)
  have cnt: "count ?key = cnt" by (simp add: TextLayoutCacheKey_new_def)
  from getValue_shape [OF call] show ?thesis
  proof (elim disjE exE conjE)
    fix kv
    assume f: "find (\<lambda>kv. compare (fst kv) ?key = 0) (mCache c) = Some kv"
      and r: "r = Some (snd kv)" and c1: "c' = c \<lparr> mCache := remove1 kv (mCache c) @ [kv] \<rparr>"
    have kv: "kv \<in> set (mCache c)" "compare (fst kv) ?key = 0"
      using find_Some_set [OF f] by simp_all
    have pk: "?P kv" using all kv(1) by (simp add: list_all_iff)
    have "count (fst kv) = cnt" using compare_0_counts [OF kv(2)] cnt by simp
    then have b: "cnt = 0 \<longrightarrow> empty_layout (snd kv)" using pk by auto
    have "list_all ?P (remove1 kv (mCache c) @ [kv])"
      using all pk by (auto simp add: list_all_iff dest: in_set_remove1_D)
    then have "cache_values_ok c'" by (simp add: cache_values_ok_def c1)
    then show ?thesis using b r by (auto simp add: empty_layout_def)
  next
    fix v
    assume comp: "computeValues e paint (getText ?key) st cnt ctx dir (mShaper c)
                    (TextLayoutValue_new e (mNextObject c) ctx) = Some (mShaper c', v)"
      and r: "r = Some v" and same: "mCache c' = mCache c"
    have b: "cnt = 0 \<longrightarrow> empty_layout v"
      using comp by (auto simp add: computeValues_def empty_layout_def)
    have "cache_values_ok c'" using same all by (simp add: cache_values_ok_def)
    then show ?thesis using b r by (auto simp add: empty_layout_def)
  next
    fix v n
    assume comp: "computeValues e paint (getText ?key) st cnt ctx dir (mShaper c)
                    (TextLayoutValue_new e (mNextObject c) ctx) = Some (mShaper c', v)"
      and r: "r = Some v" and ins: "mCache c' = drop n (mCache c) @ [(?key, v)]"
    have b: "cnt = 0 \<longrightarrow> empty_layout v"
      using comp by (auto simp add: computeValues_def empty_layout_def)
    have "list_all ?P (drop n (mCache c) @ [(?key, v)])"
      using all b cnt by (auto simp add: list_all_iff dest: in_set_dropD)
    then have "cache_values_ok c'" using ins by (simp add: cache_values_ok_def)
    then show ?thesis using b r by (auto simp add: empty_layout_def)
  qed
qed

section \<open>The concrete environment keeps the contracts\<close>


lemma ex_shaper_contract: "shaper_contract ex_env"
  unfolding shaper_contract_def
  by (auto simp add: ex_env_def ex_ShapeItem_def Let_def not_less)


section \<open>Runs of the concrete environment\<close>










section \<open>Requests on the concrete environment\<close>

text \<open>A miss on a new cache: the value is computed and, when it fits, becomes the only entry.\<close>

lemma getValue_new_cache:
  assumes comp: "computeValues e paint (getText (TextLayoutCacheKey_new paint chars st cnt ctx dir))
                   st cnt ctx dir (TextLayoutShaper_new e) (TextLayoutValue_new e 0 ctx) = Some (sh, v)"
  shows "getValue e (TextLayoutCache_new e m) paint chars st cnt ctx dir =
     Some (Inr (Some v,
       if entry_size e (TextLayoutCacheKey_new paint chars st cnt ctx dir, v) \<le> m
       then \<lparr> mShaper = sh, mCache = [(TextLayoutCacheKey_new paint chars st cnt ctx dir, v)],
              mSize = entry_size e (TextLayoutCacheKey_new paint chars st cnt ctx dir, v),
              mMaxSize = m, mNextObject = Suc 0 \<rparr>
       else \<lparr> mShaper = sh, mCache = [], mSize = 0, mMaxSize = m, mNextObject = Suc 0 \<rparr>))"
proof -
  let ?c = "TextLayoutCache_new e m"
  let ?key = "TextLayoutCacheKey_new paint chars st cnt ctx dir"
  have miss: "fst (GenerationCache_get (mCache ?c) ?key) = None"
    by (simp add: TextLayoutCache_new_def GenerationCache_get_def)
  have comp': "computeValues e paint (getText ?key) st cnt ctx dir (mShaper ?c)
                 (TextLayoutValue_new e (mNextObject ?c) ctx) = Some (sh, v)"
    using comp by (simp add: TextLayoutCache_new_def)
  show ?thesis
  proof (cases "entry_size e (?key, v) \<le> m")
    case True
    let ?c1 = "?c \<lparr> mShaper := sh, mNextObject := Suc (mNextObject ?c) \<rparr>"
    have "\<not> mMaxSize ?c1 < mSize ?c1 + entry_size e (?key, v)"
      using True by (simp add: TextLayoutCache_new_def not_less)
    then have ev: "evictLoop e (entry_size e (?key, v)) ?c1 = Inr ?c1"
      by (subst evictLoop.simps) simp
    show ?thesis
      using getValue_miss [OF miss comp'] True
      by (simp add: ev) (simp add: TextLayoutCache_new_def GenerationCache_put_def)
  next
    case False
    show ?thesis
      using getValue_miss [OF miss comp'] False
      by (simp add: TextLayoutCache_new_def)
  qed
qed












theorem empty_count_layout_witness:
  "cache_values_ok (TextLayoutCache_new ex_env 4096) \<and>
   (\<exists>v c'. getValue ex_env (TextLayoutCache_new ex_env 4096) ex_paint [0x61, 0x62, 0x63] 1 0 3 kBidi_LTR
              = Some (Inr (Some v, c')) \<and>
           mTotalAdvance v = 0 \<and> items (mGlyphs v) = [] \<and> items (mPos v) = [] \<and>
           items (mAdvances v) = [] \<and> cache_values_ok c')"
proof -
  let ?c = "TextLayoutCache_new ex_env 4096"
  have ok: "cache_values_ok ?c" by (simp add: cache_values_ok_def TextLayoutCache_new_def)
  have comp: "computeValues ex_env ex_paint
                (getText (TextLayoutCacheKey_new ex_paint [0x61, 0x62, 0x63] 1 0 3 kBidi_LTR))
                1 0 3 kBidi_LTR (TextLayoutShaper_new ex_env) (TextLayoutValue_new ex_env 0 3)
              = Some (TextLayoutShaper_new ex_env, (TextLayoutValue_new ex_env 0 3) \<lparr> mTotalAdvance := 0 \<rparr>)"
    by (simp add: computeValues_def)
  from getValue_new_cache [OF comp, of 4096] obtain c' where
    call: "getValue ex_env ?c ex_paint [0x61, 0x62, 0x63] 1 0 3 kBidi_LTR
             = Some (Inr (Some ((TextLayoutValue_new ex_env 0 3) \<lparr> mTotalAdvance := 0 \<rparr>), c'))"
    by simp
  from empty_count_layout [OF ok call] show ?thesis using ok call by auto
qed


text \<open>
  C2. When no bidi object can be opened, or \<open>ubidi_setPara\<close> fails, a request whose
  direction is not forced is shaped as a single run, and the call does not fail for
  that. But the direction of the run is RTL whatever was requested, also for an LTR or
  a default-LTR request: the fallback assigns 1 to \<open>bidiReq\<close> where it means to compare.
\<close>

theorem bidi_failure_shapes_rtl:
  assumes unforced: "dir \<noteq> kBidi_Force_LTR" "dir \<noteq> kBidi_Force_RTL"
    and fail: "\<not> ubidi_open e \<or> (\<forall>req. ubidi_setPara e chars (unat ctx) req = None)"
    and some: "cnt \<noteq> 0"
  shows "computeValues e paint chars st cnt ctx dir sh v
           = computeRunValues e paint (drop (unat st) chars) cnt True sh (v \<lparr> mTotalAdvance := 0 \<rparr>)"
proof -
  have fb: "fallback_isRTL req" for req by (simp add: fallback_isRTL_def)
  from fail show ?thesis
  proof
    assume "\<not> ubidi_open e"
    then show ?thesis using unforced some by (simp add: computeValues_def Let_def fb)
  next
    assume "\<forall>req. ubidi_setPara e chars (unat ctx) req = None"
    then show ?thesis using unforced some by (simp add: computeValues_def Let_def fb)
  qed
qed

theorem bidi_failure_shapes_rtl_witness:
  "kBidi_LTR \<noteq> kBidi_Force_LTR \<and> kBidi_LTR \<noteq> kBidi_Force_RTL \<and>
   \<not> ubidi_open (ex_env \<lparr> ubidi_open := False \<rparr>) \<and> (2 :: 32 word) \<noteq> 0 \<and>
   computeValues (ex_env \<lparr> ubidi_open := False \<rparr>) ex_paint [0x61, 0x62] 0 2 2 kBidi_LTR
       (TextLayoutShaper_new ex_env) (TextLayoutValue_new ex_env 0 2)
     = computeRunValues (ex_env \<lparr> ubidi_open := False \<rparr>) ex_paint [0x61, 0x62] 2 True
         (TextLayoutShaper_new ex_env) ((TextLayoutValue_new ex_env 0 2) \<lparr> mTotalAdvance := 0 \<rparr>)"
proof -
  have a: "kBidi_LTR \<noteq> kBidi_Force_LTR" "kBidi_LTR \<noteq> kBidi_Force_RTL"
    by (simp_all add: kBidi_LTR_def kBidi_Force_LTR_def kBidi_Force_RTL_def)
  have b: "\<not> ubidi_open (ex_env \<lparr> ubidi_open := False \<rparr>)" by simp
  have c: "(2 :: 32 word) \<noteq> 0" by simp
  from bidi_failure_shapes_rtl [where e = "ex_env \<lparr> ubidi_open := False \<rparr>" and paint = ex_paint
      and chars = "[0x61, 0x62]" and st = 0 and cnt = 2 and ctx = 2 and dir = kBidi_LTR
      and sh = "TextLayoutShaper_new ex_env" and v = "TextLayoutValue_new ex_env 0 2",
      OF a disjI1 [OF b] c]
  show ?thesis using a b by simp
qed

section \<open>The growth of the glyph arrays\<close>

lemma firstShapingSize_unat:
  assumes "unat (item_length (item it)) * 3 < 2 ^ 32"
  shows "unat (firstShapingSize it) = unat (item_length (item it)) * 3 div 2"
proof -
  have "unat (item_length (item it) * 3) = unat (item_length (item it)) * 3"
    using assms by (simp add: unat_word_ariths)
  then show ?thesis by (simp add: firstShapingSize_def unat_div)
qed

lemma ex_HB_ShapeItem: "HB_ShapeItem ex_env = ex_ShapeItem"
  by (simp add: ex_env_def)

lemma purgeCaches_size:
  "mShaperItemGlyphArraySize (TextLayoutShaper_purgeCaches e sh) = mShaperItemGlyphArraySize sh"
  by (simp add: TextLayoutShaper_purgeCaches_def TextLayoutShaper_init_def)

text \<open>
  C8 on a shaper that has shaped a run of eight units before: its arrays have 12
  elements, and the first attempt for a run of two units offers the shaper these 12, not
  the 3 that one and a half times the run length gives.
\<close>

theorem first_attempt_offers_array_size:
  "firstShapingSize (mShaperItem (ex_shaper 8 (TextLayoutShaper_new ex_env))) = 12 \<and>
   fst (doShaping ex_env 12 (ex_shaper 8 (TextLayoutShaper_new ex_env))) \<and>
   firstShapingSize (mShaperItem (ex_shaper 2
       (snd (doShaping ex_env 12 (ex_shaper 8 (TextLayoutShaper_new ex_env)))))) = 3 \<and>
   req_num_glyphs (shapeRequest (prepareShaping 3 (ex_shaper 2
       (snd (doShaping ex_env 12 (ex_shaper 8 (TextLayoutShaper_new ex_env))))))) = 12 \<and>
   mShaperItemGlyphArraySize (prepareShaping 3 (ex_shaper 2
       (snd (doShaping ex_env 12 (ex_shaper 8 (TextLayoutShaper_new ex_env)))))) = 12"
proof -
  let ?sh8 = "ex_shaper 8 (TextLayoutShaper_new ex_env)"
  let ?sh1 = "snd (doShaping ex_env 12 ?sh8)"
  have a: "firstShapingSize (mShaperItem ?sh8) = 12"
    by (simp add: firstShapingSize_def ex_shaper_def)
  have s0: "mShaperItemGlyphArraySize ?sh8 = 0"
    by (simp add: ex_shaper_def TextLayoutShaper_new_def TextLayoutShaper_init_def)
  have rq: "req_num_glyphs (shapeRequest (prepareShaping 12 ?sh8)) = 12"
    "item_length (req_item (shapeRequest (prepareShaping 12 ?sh8))) = 8"
    by (simp_all add: shapeRequest_prepareShaping s0) (simp add: shapeRequest_def ex_shaper_def)
  have b: "fst (doShaping ex_env 12 ?sh8)"
    by (simp add: doShaping_result) (simp add: ex_HB_ShapeItem ex_ShapeItem_def Let_def rq)
  have s1: "mShaperItemGlyphArraySize ?sh1 = 12" by (simp add: s0)
  have s2: "mShaperItemGlyphArraySize (ex_shaper 2 ?sh1) = 12"
    using s1 by (simp add: ex_shaper_def)
  have c: "firstShapingSize (mShaperItem (ex_shaper 2 ?sh1)) = 3"
    by (simp add: firstShapingSize_def ex_shaper_def)
  have d: "req_num_glyphs (shapeRequest (prepareShaping 3 (ex_shaper 2 ?sh1))) = 12"
    by (simp add: shapeRequest_prepareShaping s2)
  have e: "mShaperItemGlyphArraySize (prepareShaping 3 (ex_shaper 2 ?sh1)) = 12"
    by (simp add: prepareShaping_size s2)
  show ?thesis using a b c d e by simp
qed

text \<open>
  C8, as the code has it. The arrays are replaced only when the size asked for exceeds
  their current size. So the first attempt for a script run offers the shaper the larger
  of \<open>floor(1.5 * run length)\<close> (at least 1 for a non-empty run) and the current array
  size. Under the shaper's contract, when an attempt says false with \<open>num_glyphs\<close> set
  to the count it needs, the loop goes on with twice that count, which exceeds the
  current size: the five arrays are replaced by arrays of twice the count, the offsets
  zeroed, and that attempt succeeds, so the loop ends. The array size never decreases
  over a shaping run or a whole \<open>computeValues\<close>, and purging the shaper's caches leaves
  it as it is.
\<close>

theorem shaper_buffer_growth:
  assumes hb: "shaper_contract e"
  shows "req_num_glyphs (shapeRequest (prepareShaping (firstShapingSize (mShaperItem sh)) sh))
           = max (firstShapingSize (mShaperItem sh)) (mShaperItemGlyphArraySize sh) \<and>
         (unat (item_length (item (mShaperItem sh))) * 3 < 2 ^ 32 \<longrightarrow>
            unat (firstShapingSize (mShaperItem sh))
              = unat (item_length (item (mShaperItem sh))) * 3 div 2 \<and>
            (item_length (item (mShaperItem sh)) \<noteq> 0 \<longrightarrow> firstShapingSize (mShaperItem sh) \<noteq> 0)) \<and>
         (\<not> fst (doShaping e sz sh) \<longrightarrow>
            shapingLoop e sz sh
              = shapingLoop e (num_glyphs (mShaperItem (snd (doShaping e sz sh))) * 2)
                  (snd (doShaping e sz sh)) \<and>
            unat (num_glyphs (mShaperItem (snd (doShaping e sz sh))) * 2)
              = 2 * unat (num_glyphs (mShaperItem (snd (doShaping e sz sh)))) \<and>
            mShaperItemGlyphArraySize (snd (doShaping e sz sh))
              < num_glyphs (mShaperItem (snd (doShaping e sz sh))) * 2 \<and>
            mShaperItemGlyphArraySize
                (prepareShaping (num_glyphs (mShaperItem (snd (doShaping e sz sh))) * 2)
                   (snd (doShaping e sz sh)))
              = num_glyphs (mShaperItem (snd (doShaping e sz sh))) * 2 \<and>
            length (glyphs (mShaperItem
                (prepareShaping (num_glyphs (mShaperItem (snd (doShaping e sz sh))) * 2)
                   (snd (doShaping e sz sh)))))
              = unat (num_glyphs (mShaperItem (snd (doShaping e sz sh))) * 2) \<and>
            length (attributes (mShaperItem
                (prepareShaping (num_glyphs (mShaperItem (snd (doShaping e sz sh))) * 2)
                   (snd (doShaping e sz sh)))))
              = unat (num_glyphs (mShaperItem (snd (doShaping e sz sh))) * 2) \<and>
            length (advances (mShaperItem
                (prepareShaping (num_glyphs (mShaperItem (snd (doShaping e sz sh))) * 2)
                   (snd (doShaping e sz sh)))))
              = unat (num_glyphs (mShaperItem (snd (doShaping e sz sh))) * 2) \<and>
            length (log_clusters (mShaperItem
                (prepareShaping (num_glyphs (mShaperItem (snd (doShaping e sz sh))) * 2)
                   (snd (doShaping e sz sh)))))
              = unat (num_glyphs (mShaperItem (snd (doShaping e sz sh))) * 2) \<and>
            offsets (mShaperItem
                (prepareShaping (num_glyphs (mShaperItem (snd (doShaping e sz sh))) * 2)
                   (snd (doShaping e sz sh))))
              = replicate (unat (num_glyphs (mShaperItem (snd (doShaping e sz sh))) * 2)) (0, 0) \<and>
            fst (doShaping e (num_glyphs (mShaperItem (snd (doShaping e sz sh))) * 2)
                   (snd (doShaping e sz sh)))) \<and>
         (\<exists>g sh'. shapeFontRun e paint isRTL sh = Some (g, sh') \<and>
                  mShaperItemGlyphArraySize sh \<le> mShaperItemGlyphArraySize sh') \<and>
         (\<forall>sh' v'. computeValues e paint chars st cnt ctx dir sh v = Some (sh', v') \<longrightarrow>
                  mShaperItemGlyphArraySize sh \<le> mShaperItemGlyphArraySize sh') \<and>
         mShaperItemGlyphArraySize (TextLayoutShaper_purgeCaches e sh) = mShaperItemGlyphArraySize sh"
proof -
  let ?it = "mShaperItem sh"
  have first: "req_num_glyphs (shapeRequest (prepareShaping (firstShapingSize ?it) sh))
           = max (firstShapingSize ?it) (mShaperItemGlyphArraySize sh)"
    by (simp add: shapeRequest_prepareShaping)
  have half: "unat (firstShapingSize ?it) = unat (item_length (item ?it)) * 3 div 2 \<and>
              (item_length (item ?it) \<noteq> 0 \<longrightarrow> firstShapingSize ?it \<noteq> 0)"
    if small: "unat (item_length (item ?it)) * 3 < 2 ^ 32"
  proof -
    note u = firstShapingSize_unat [OF small]
    have "firstShapingSize ?it \<noteq> 0" if "item_length (item ?it) \<noteq> 0"
    proof -
      have "1 \<le> unat (item_length (item ?it))" using that by (simp add: unat_eq_0 Suc_le_eq unat_gt_0)
      then have "1 \<le> unat (firstShapingSize ?it)" using u by simp
      then show ?thesis by (auto simp add: unat_eq_0)
    qed
    then show ?thesis using u by simp
  qed
  have retry: "shapingLoop e sz sh
              = shapingLoop e (num_glyphs (mShaperItem (snd (doShaping e sz sh))) * 2)
                  (snd (doShaping e sz sh)) \<and>
            unat (num_glyphs (mShaperItem (snd (doShaping e sz sh))) * 2)
              = 2 * unat (num_glyphs (mShaperItem (snd (doShaping e sz sh)))) \<and>
            mShaperItemGlyphArraySize (snd (doShaping e sz sh))
              < num_glyphs (mShaperItem (snd (doShaping e sz sh))) * 2 \<and>
            mShaperItemGlyphArraySize
                (prepareShaping (num_glyphs (mShaperItem (snd (doShaping e sz sh))) * 2)
                   (snd (doShaping e sz sh)))
              = num_glyphs (mShaperItem (snd (doShaping e sz sh))) * 2 \<and>
            length (glyphs (mShaperItem
                (prepareShaping (num_glyphs (mShaperItem (snd (doShaping e sz sh))) * 2)
                   (snd (doShaping e sz sh)))))
              = unat (num_glyphs (mShaperItem (snd (doShaping e sz sh))) * 2) \<and>
            length (attributes (mShaperItem
                (prepareShaping (num_glyphs (mShaperItem (snd (doShaping e sz sh))) * 2)
                   (snd (doShaping e sz sh)))))
              = unat (num_glyphs (mShaperItem (snd (doShaping e sz sh))) * 2) \<and>
            length (advances (mShaperItem
                (prepareShaping (num_glyphs (mShaperItem (snd (doShaping e sz sh))) * 2)
                   (snd (doShaping e sz sh)))))
              = unat (num_glyphs (mShaperItem (snd (doShaping e sz sh))) * 2) \<and>
            length (log_clusters (mShaperItem
                (prepareShaping (num_glyphs (mShaperItem (snd (doShaping e sz sh))) * 2)
                   (snd (doShaping e sz sh)))))
              = unat (num_glyphs (mShaperItem (snd (doShaping e sz sh))) * 2) \<and>
            offsets (mShaperItem
                (prepareShaping (num_glyphs (mShaperItem (snd (doShaping e sz sh))) * 2)
                   (snd (doShaping e sz sh))))
              = replicate (unat (num_glyphs (mShaperItem (snd (doShaping e sz sh))) * 2)) (0, 0) \<and>
            fst (doShaping e (num_glyphs (mShaperItem (snd (doShaping e sz sh))) * 2)
                   (snd (doShaping e sz sh)))"
    if fail: "\<not> fst (doShaping e sz sh)"
  proof -
    let ?sh1 = "snd (doShaping e sz sh)"
    let ?R = "num_glyphs (mShaperItem ?sh1)"
    note r = doShaping_retry [OF hb fail]
    note re = prepareShaping_realloc [OF r(3)]
    define sh1 where "sh1 = snd (doShaping e sz sh)"
    define R where "R = num_glyphs (mShaperItem sh1)"
    have "mShaperItemGlyphArraySize sh1 < R * 2" using r(3) by (simp only: sh1_def R_def)
    then have "mShaperItemGlyphArraySize sh1 \<le> R * 2" by (rule less_imp_le)
    then have mx: "max (R * 2) (mShaperItemGlyphArraySize sh1) = R * 2" by (rule max_absorb1)
    have "mShaperItemGlyphArraySize (prepareShaping (R * 2) sh1) = R * 2"
      "offsets (mShaperItem (prepareShaping (R * 2) sh1)) = replicate (unat (R * 2)) (0, 0)"
      by (simp_all only: prepareShaping_size mx)
    then have sz2: "mShaperItemGlyphArraySize (prepareShaping (?R * 2) ?sh1) = ?R * 2"
      and off: "offsets (mShaperItem (prepareShaping (?R * 2) ?sh1)) = replicate (unat (?R * 2)) (0, 0)"
      by (simp_all only: sh1_def R_def)
    show ?thesis
      using shapingLoop_retry [OF fail] r(2,3,4) re(1,2,3,5) sz2 off by simp
  qed
  from shapeFontRun_terminates [OF hb, of paint isRTL sh] obtain s where
    s: "shapeFontRun e paint isRTL sh = Some s" by blast
  have run: "\<exists>g sh'. shapeFontRun e paint isRTL sh = Some (g, sh') \<and>
                  mShaperItemGlyphArraySize sh \<le> mShaperItemGlyphArraySize sh'"
    using s shapeFontRun_size_mono [OF s] by (cases s) auto
  have whole: "\<forall>sh' v'. computeValues e paint chars st cnt ctx dir sh v = Some (sh', v') \<longrightarrow>
                  mShaperItemGlyphArraySize sh \<le> mShaperItemGlyphArraySize sh'"
    using computeValues_size_mono by blast
  show ?thesis
    using first half retry run whole purgeCaches_size [of e sh] by blast
qed

theorem shaper_buffer_growth_witness:
  "shaper_contract ex_env \<and>
   unat (item_length (item (mShaperItem (ex_shaper 2 (TextLayoutShaper_new ex_env))))) * 3 < 2 ^ 32 \<and>
   unat (firstShapingSize (mShaperItem (ex_shaper 2 (TextLayoutShaper_new ex_env)))) = 3 \<and>
   \<not> fst (doShaping ex_env 1 (ex_shaper 2 (TextLayoutShaper_new ex_env))) \<and>
   num_glyphs (mShaperItem (snd (doShaping ex_env 1 (ex_shaper 2 (TextLayoutShaper_new ex_env))))) = 2 \<and>
   mShaperItemGlyphArraySize
       (prepareShaping (num_glyphs (mShaperItem
            (snd (doShaping ex_env 1 (ex_shaper 2 (TextLayoutShaper_new ex_env))))) * 2)
          (snd (doShaping ex_env 1 (ex_shaper 2 (TextLayoutShaper_new ex_env))))) = 4 \<and>
   fst (doShaping ex_env (num_glyphs (mShaperItem
            (snd (doShaping ex_env 1 (ex_shaper 2 (TextLayoutShaper_new ex_env))))) * 2)
          (snd (doShaping ex_env 1 (ex_shaper 2 (TextLayoutShaper_new ex_env))))) \<and>
   (\<exists>g sh'. shapeFontRun ex_env ex_paint False (ex_shaper 2 (TextLayoutShaper_new ex_env)) = Some (g, sh'))"
proof -
  let ?sh = "ex_shaper 2 (TextLayoutShaper_new ex_env)"
  have len: "item_length (item (mShaperItem ?sh)) = 2" by (simp add: ex_shaper_def)
  have small: "unat (item_length (item (mShaperItem ?sh))) * 3 < 2 ^ 32" by (simp add: len)
  have s0: "mShaperItemGlyphArraySize ?sh = 0"
    by (simp add: ex_shaper_def TextLayoutShaper_new_def TextLayoutShaper_init_def)
  have rq: "req_num_glyphs (shapeRequest (prepareShaping 1 ?sh)) = 1"
    "item_length (req_item (shapeRequest (prepareShaping 1 ?sh))) = 2"
    by (simp_all add: shapeRequest_prepareShaping s0) (simp add: shapeRequest_def ex_shaper_def)
  have fail: "\<not> fst (doShaping ex_env 1 ?sh)"
    by (simp add: doShaping_result) (simp add: ex_HB_ShapeItem ex_ShapeItem_def Let_def rq)
  have need: "num_glyphs (mShaperItem (snd (doShaping ex_env 1 ?sh))) = 2"
    by (simp add: doShaping_result) (simp add: ex_HB_ShapeItem ex_ShapeItem_def Let_def rq)
  from shaper_buffer_growth [OF ex_shaper_contract, of ?sh 1 ex_paint False] small fail
  show ?thesis
    using ex_shaper_contract need by (simp add: len) blast
qed

lemma normalizeChunk_rel:
  assumes "fst a = fst b" and "fst a \<longrightarrow> fst (snd a) = fst (snd b)"
    and "snd (snd (snd a)) = snd (snd (snd b))"
  shows "fst (normalizeChunk e chars cnt j i a) = fst (normalizeChunk e chars cnt j i b) \<and>
         (fst (normalizeChunk e chars cnt j i a) \<longrightarrow>
            fst (snd (normalizeChunk e chars cnt j i a)) = fst (snd (normalizeChunk e chars cnt j i b))) \<and>
         snd (snd (snd (normalizeChunk e chars cnt j i a)))
           = snd (snd (snd (normalizeChunk e chars cnt j i b)))"
  using assms
  by (cases a, cases b) (auto simp add: normalizeChunk_def Let_def)

lemma normalizeLoop_rel:
  assumes "fst a = fst b" and "fst a \<longrightarrow> fst (snd a) = fst (snd b)"
    and "snd (snd (snd a)) = snd (snd (snd b))"
  shows "fst (normalizeLoop e chars cnt i a) = fst (normalizeLoop e chars cnt i b) \<and>
         (fst (normalizeLoop e chars cnt i a) \<longrightarrow>
            fst (snd (normalizeLoop e chars cnt i a)) = fst (snd (normalizeLoop e chars cnt i b)))"
  using assms
proof (induction e chars cnt i a arbitrary: b rule: normalizeLoop.induct)
  case (1 e chars cnt i a)
  show ?case
  proof (cases "i < 0")
    case True
    then show ?thesis using "1.prems" by (simp add: normalizeLoop.simps [of e chars cnt i])
  next
    case nonneg: False
    show ?thesis
    proof (cases "ublock_getCode e (elem_at chars (nat i)) = UBLOCK_COMBINING_DIACRITICAL_MARKS")
      case False
      from "1.IH"(2) [OF nonneg False "1.prems"] show ?thesis
        using nonneg False by (simp add: normalizeLoop.simps [of e chars cnt i])
    next
      case dia: True
      show ?thesis
      proof (cases "findMain e chars (i - 1) < 0")
        case True
        then show ?thesis using nonneg dia "1.prems"
          by (simp add: normalizeLoop.simps [of e chars cnt i])
      next
        case False
        note ch = normalizeChunk_rel [OF "1.prems", of e chars cnt "findMain e chars (i - 1)" i]
        from "1.IH"(1) [OF nonneg dia False, of "normalizeChunk e chars cnt (findMain e chars (i - 1)) i b"] ch
        show ?thesis
          using nonneg dia False by (simp add: normalizeLoop.simps [of e chars cnt i])
      qed
    qed
  qed
qed

lemma mirrorStep_rel:
  assumes "fst a = fst b" and "fst a \<longrightarrow> snd a = snd b"
  shows "fst (mirrorStep e chars cnt a i) = fst (mirrorStep e chars cnt b i) \<and>
         (fst (mirrorStep e chars cnt a i) \<longrightarrow>
            snd (mirrorStep e chars cnt a i) = snd (mirrorStep e chars cnt b i))"
  using assms by (auto simp add: mirrorStep_def Let_def)

lemma mirrorFold_rel:
  assumes "fst a = fst b" and "fst a \<longrightarrow> snd a = snd b"
  shows "fst (foldl (mirrorStep e chars cnt) a ixs) = fst (foldl (mirrorStep e chars cnt) b ixs) \<and>
         (fst (foldl (mirrorStep e chars cnt) a ixs) \<longrightarrow>
            snd (foldl (mirrorStep e chars cnt) a ixs) = snd (foldl (mirrorStep e chars cnt) b ixs))"
  using assms
proof (induction ixs arbitrary: a b)
  case Nil
  then show ?case by simp
next
  case (Cons i ixs)
  from mirrorStep_rel [OF Cons.prems, of e chars cnt i]
  have "fst (mirrorStep e chars cnt a i) = fst (mirrorStep e chars cnt b i)"
    "fst (mirrorStep e chars cnt a i) \<longrightarrow> snd (mirrorStep e chars cnt a i) = snd (mirrorStep e chars cnt b i)"
    by simp_all
  from Cons.IH [OF this] show ?case by simp
qed

text \<open>
  The string that \<open>computeRunValues\<close> hands to the shaper does not depend on what the
  shaper held in \<open>mNormalizedString\<close> and \<open>mBuffer\<close> before.
\<close>

lemma run_string_independent:
  fixes e chars cnt isRTL
  defines "str \<equiv> \<lambda>nstr buf.
     (let n = normalizeLoop e chars cnt (ssize_t_of (cnt - 1)) (False, nstr, buf, U_ZERO_ERROR);
          m = (if isRTL then mirrorLoop e chars cnt (fst n, fst (snd n)) else (fst n, fst (snd n)))
      in if fst m then snd m else chars)"
  shows "str nstr buf = str nstr' buf'"
proof -
  let ?a = "normalizeLoop e chars cnt (ssize_t_of (cnt - 1)) (False, nstr, buf, U_ZERO_ERROR)"
  let ?b = "normalizeLoop e chars cnt (ssize_t_of (cnt - 1)) (False, nstr', buf', U_ZERO_ERROR)"
  have n: "fst ?a = fst ?b" "fst ?a \<longrightarrow> fst (snd ?a) = fst (snd ?b)"
    using normalizeLoop_rel [of "(False, nstr, buf, U_ZERO_ERROR)" "(False, nstr', buf', U_ZERO_ERROR)"
        e chars cnt "ssize_t_of (cnt - 1)"] by simp_all
  have m: "fst (mirrorLoop e chars cnt (fst ?a, fst (snd ?a))) = fst (mirrorLoop e chars cnt (fst ?b, fst (snd ?b)))"
    "fst (mirrorLoop e chars cnt (fst ?a, fst (snd ?a))) \<longrightarrow>
       snd (mirrorLoop e chars cnt (fst ?a, fst (snd ?a))) = snd (mirrorLoop e chars cnt (fst ?b, fst (snd ?b)))"
    using mirrorFold_rel [of "(fst ?a, fst (snd ?a))" "(fst ?b, fst (snd ?b))" e chars cnt
        "[0..<nat (ssize_t_of cnt)]"] n
    by (simp_all add: mirrorLoop_def)
  show ?thesis
    unfolding str_def Let_def using n m by auto
qed

lemma getCachedHBFace_keeps [simp]:
  "mShaperItem (snd (getCachedHBFace e tf sh)) = mShaperItem sh"
  "mShapingPaint (snd (getCachedHBFace e tf sh)) = mShapingPaint sh"
  "mFontRec (snd (getCachedHBFace e tf sh)) = mFontRec sh"
  "mDefaultTypeface (snd (getCachedHBFace e tf sh)) = mDefaultTypeface sh"
  by (simp_all add: getCachedHBFace_def Let_def split: option.splits)

lemma getCachedHBFace_face:
  assumes "shaper_ok e sh"
  shows "fst (getCachedHBFace e tf sh) = HB_NewFace e tf"
proof (cases "mCachedHBFaces sh (SkTypeface_uniqueID e tf)")
  case None
  then show ?thesis by (simp add: getCachedHBFace_def Let_def)
next
  case (Some f)
  then have "f = HB_NewFace e tf" using assms unfolding shaper_ok_def by blast
  then show ?thesis using Some by (simp add: getCachedHBFace_def Let_def)
qed

lemma getCachedHBFace_ok:
  assumes det: "shaping_deterministic e" and ok: "shaper_ok e sh"
  shows "shaper_ok e (snd (getCachedHBFace e tf sh))"
proof (cases "mCachedHBFaces sh (SkTypeface_uniqueID e tf)")
  case (Some f)
  then show ?thesis using ok by (simp add: getCachedHBFace_def Let_def)
next
  case None
  show ?thesis
  proof (cases "HB_NewFace e tf = 0")
    case True
    then show ?thesis using ok None by (simp add: getCachedHBFace_def Let_def)
  next
    case False
    let ?m = "(mCachedHBFaces sh)(SkTypeface_uniqueID e tf \<mapsto> HB_NewFace e tf)"
    have res: "snd (getCachedHBFace e tf sh) = sh \<lparr> mCachedHBFaces := ?m \<rparr>"
      using None False by (simp add: getCachedHBFace_def Let_def)
    have old: "\<forall>t f. mCachedHBFaces sh (SkTypeface_uniqueID e t) = Some f \<longrightarrow> f = HB_NewFace e t"
      using ok unfolding shaper_ok_def by blast
    have faces: "f = HB_NewFace e t" if m: "?m (SkTypeface_uniqueID e t) = Some f" for t f
    proof (cases "SkTypeface_uniqueID e t = SkTypeface_uniqueID e tf")
      case True
      then have "f = HB_NewFace e tf" using m by simp
      moreover have "\<forall>x y. SkTypeface_uniqueID e x = SkTypeface_uniqueID e y \<longrightarrow>
                       HB_NewFace e x = HB_NewFace e y"
        using det unfolding shaping_deterministic_def by (elim conjE)
      then have "HB_NewFace e t = HB_NewFace e tf" using True by blast
      ultimately show ?thesis by simp
    next
      case False
      then have "mCachedHBFaces sh (SkTypeface_uniqueID e t) = Some f" using m by simp
      then show ?thesis using old by blast
    qed
    have rest: "mDefaultTypeface sh = SkFontHost_CreateTypeface e"
      "arrays_null (mShaperItem sh) \<longrightarrow> mShaperItemGlyphArraySize sh = 0"
      using ok unfolding shaper_ok_def by blast+
    show ?thesis
      unfolding res shaper_ok_def
    proof (intro conjI allI impI)
      fix t f
      assume "mCachedHBFaces (sh \<lparr> mCachedHBFaces := ?m \<rparr>) (SkTypeface_uniqueID e t) = Some f"
      then have "?m (SkTypeface_uniqueID e t) = Some f" by simp
      then show "f = HB_NewFace e t" by (rule faces)
    next
      show "mDefaultTypeface (sh \<lparr> mCachedHBFaces := ?m \<rparr>) = SkFontHost_CreateTypeface e"
        using rest(1) by simp
    next
      assume "arrays_null (mShaperItem (sh \<lparr> mCachedHBFaces := ?m \<rparr>))"
      then show "mShaperItemGlyphArraySize (sh \<lparr> mCachedHBFaces := ?m \<rparr>) = 0"
        using rest(2) by simp
    qed
  qed
qed

lemma shaper_ok_upd [simp]:
  "shaper_ok e (x \<lparr> mFontRec := f \<rparr>) = shaper_ok e x"
  "shaper_ok e (x \<lparr> mShapingPaint := p \<rparr>) = shaper_ok e x"
  "shaper_ok e (x \<lparr> mNormalizedString := n \<rparr>) = shaper_ok e x"
  "shaper_ok e (x \<lparr> mBuffer := u \<rparr>) = shaper_ok e x"
  "arrays_null i = arrays_null (mShaperItem x) \<Longrightarrow>
     shaper_ok e (x \<lparr> mShaperItem := i \<rparr>) = shaper_ok e x"
  by (simp_all add: shaper_ok_def)

lemma paint_but_typeface:
  assumes "same_style p q"
  shows "p \<lparr> getTypeface := t \<rparr> = q \<lparr> getTypeface := t \<rparr>"
  using assms by (cases p, cases q) (simp add: same_style_def)

text \<open>
  The setup of \<open>shapeFontRun\<close> on two shapers in order that hold the same string, the
  same item and the same paint but for its typeface: the same base glyph count, the same
  request to the shaper, and the same paint afterwards.
\<close>

lemma shapeFontRun_setup_rel:
  assumes det: "shaping_deterministic e" and oka: "shaper_ok e a" and okb: "shaper_ok e b"
    and str: "shaper_string (mShaperItem a) = shaper_string (mShaperItem b)"
    and len: "stringLength (mShaperItem a) = stringLength (mShaperItem b)"
    and itm: "item (mShaperItem a) = item (mShaperItem b)"
    and pnt: "same_style (mShapingPaint a) (mShapingPaint b)"
  shows "fst (shapeFontRun_setup e paint isRTL a) = fst (shapeFontRun_setup e paint isRTL b)"
    and "(shapeRequest (snd (shapeFontRun_setup e paint isRTL a))) \<lparr> req_num_glyphs := 0 \<rparr>
           = (shapeRequest (snd (shapeFontRun_setup e paint isRTL b))) \<lparr> req_num_glyphs := 0 \<rparr>"
    and "mShapingPaint (snd (shapeFontRun_setup e paint isRTL a))
           = mShapingPaint (snd (shapeFontRun_setup e paint isRTL b))"
proof -
  have dt: "mDefaultTypeface a = mDefaultTypeface b"
    using oka okb by (simp add: shaper_ok_def)
  note pt = paint_but_typeface [OF pnt]
  have fa: "fst (getCachedHBFace e tf (a \<lparr> mShaperItem := i, mShapingPaint := p \<rparr>)) = HB_NewFace e tf"
    if "arrays_null i = arrays_null (mShaperItem a)" for tf i p
    using getCachedHBFace_face [of e "a \<lparr> mShaperItem := i, mShapingPaint := p \<rparr>" tf] oka that
    by simp
  have fb: "fst (getCachedHBFace e tf (b \<lparr> mShaperItem := i, mShapingPaint := p \<rparr>)) = HB_NewFace e tf"
    if "arrays_null i = arrays_null (mShaperItem b)" for tf i p
    using getCachedHBFace_face [of e "b \<lparr> mShaperItem := i, mShapingPaint := p \<rparr>" tf] okb that
    by simp
  show "fst (shapeFontRun_setup e paint isRTL a) = fst (shapeFontRun_setup e paint isRTL b)"
    by (simp add: shapeFontRun_setup_def Let_def str itm split del: if_split cong: if_cong)
  show "(shapeRequest (snd (shapeFontRun_setup e paint isRTL a))) \<lparr> req_num_glyphs := 0 \<rparr>
           = (shapeRequest (snd (shapeFontRun_setup e paint isRTL b))) \<lparr> req_num_glyphs := 0 \<rparr>"
    by (simp add: shapeFontRun_setup_def Let_def shapeRequest_def str len itm dt pt fa fb
        split del: if_split cong: if_cong)
  show "mShapingPaint (snd (shapeFontRun_setup e paint isRTL a))
           = mShapingPaint (snd (shapeFontRun_setup e paint isRTL b))"
    by (simp add: shapeFontRun_setup_def Let_def str itm dt pt split del: if_split cong: if_cong)
qed

lemma shapeFontRun_setup_ok:
  assumes det: "shaping_deterministic e" and ok: "shaper_ok e x"
  shows "shaper_ok e (snd (shapeFontRun_setup e paint isRTL x))"
proof -
  have "shaper_ok e (snd (getCachedHBFace e tf (x \<lparr> mShaperItem := i, mShapingPaint := p \<rparr>)))"
    if "arrays_null i = arrays_null (mShaperItem x)" for tf i p
    using getCachedHBFace_ok [OF det, of "x \<lparr> mShaperItem := i, mShapingPaint := p \<rparr>" tf] ok that
    by simp
  then show ?thesis
    by (simp add: shapeFontRun_setup_def Let_def split del: if_split cong: if_cong)
qed

end
